theory Spec2Isabelle
  imports Complex_Main "HOL-Library.Sublist"
begin

section \<open>Strings\<close>

text \<open>
  A JavaScript string is modelled as a \<^typ>\<open>string\<close>: a list of code units, here the
  code units from 0 to 255. Of the code units that ECMAScript counts as white space or as a
  line terminator (the class \<^verbatim>\<open>\s\<close> of a regular expression, and what
  \<^verbatim>\<open>String.prototype.trim\<close> removes), seven lie in that range: TAB, LF, VT, FF, CR,
  SPACE and NBSP. The proofs below use of this set only that SPACE is in it and that no
  digit, no hexadecimal digit and none of the letters and signs of the pattern of
  \<^verbatim>\<open>parseColorInfo\<close> is.
\<close>

definition isWhiteSpace :: "char \<Rightarrow> bool" where
  "isWhiteSpace c =
     (c \<in> set [CHR 0x09, CHR 0x0A, CHR 0x0B, CHR 0x0C, CHR 0x0D, CHR 0x20, CHR 0xA0])"

text \<open>The class \<^verbatim>\<open>\d\<close>.\<close>

definition isDigit :: "char \<Rightarrow> bool" where
  "isDigit c = (c \<in> set ''0123456789'')"

text \<open>The class \<^verbatim>\<open>[0-9A-Fa-f]\<close>; these are also the digits \<^verbatim>\<open>parseInt\<close> reads in radix 16.\<close>

definition isHexDigit :: "char \<Rightarrow> bool" where
  "isHexDigit c = (c \<in> set ''0123456789ABCDEFabcdef'')"

text \<open>The class \<^verbatim>\<open>[^,]\<close>.\<close>

definition notComma :: "char \<Rightarrow> bool" where
  "notComma c = (c \<noteq> CHR '','')"

text \<open>\<^verbatim>\<open>s.trim()\<close>: white space is dropped at both ends.\<close>

definition trim :: "string \<Rightarrow> string" where
  "trim s = rev (dropWhile isWhiteSpace (rev (dropWhile isWhiteSpace s)))"

text \<open>\<^verbatim>\<open>s.startsWith(pat)\<close>.\<close>

definition startsWith :: "string \<Rightarrow> string \<Rightarrow> bool" where
  "startsWith s pat = (take (length pat) s = pat)"

text \<open>
  \<^verbatim>\<open>s.indexOf(pat)\<close>: the index of the first occurrence of \<open>pat\<close>; \<open>None\<close> stands
  for the result \<^verbatim>\<open>-1\<close>.
\<close>

fun indexOf :: "string \<Rightarrow> string \<Rightarrow> nat option" where
  "indexOf s pat =
     (if startsWith s pat then Some 0
      else case s of [] \<Rightarrow> None | _ # cs \<Rightarrow> map_option Suc (indexOf cs pat))"

text \<open>\<^verbatim>\<open>s.includes(pat)\<close>.\<close>

definition includes_str :: "string \<Rightarrow> string \<Rightarrow> bool" where
  "includes_str s pat = (indexOf s pat \<noteq> None)"

text \<open>\<^verbatim>\<open>s.split("\n")\<close>: the pieces between line feeds; a string without one is one piece.\<close>

fun splitLines :: "string \<Rightarrow> string list" where
  "splitLines [] = [[]]"
| "splitLines (c # cs) =
     (if c = CHR 0x0A then [] # splitLines cs
      else case splitLines cs of l # ls \<Rightarrow> (c # l) # ls | [] \<Rightarrow> [[c]])"

text \<open>\<^verbatim>\<open>xs.join(sep)\<close> on an array of strings.\<close>

fun join :: "string \<Rightarrow> string list \<Rightarrow> string" where
  "join sep [] = []"
| "join sep [x] = x"
| "join sep (x # y # ys) = x @ sep @ join sep (y # ys)"

text \<open>
  The decimal digits of a natural number, as \<^verbatim>\<open>${index + 1}\<close> in a template literal
  writes an array index; \<open>digitChar\<close> is applied to numbers below ten only.
\<close>

definition digitChar :: "nat \<Rightarrow> char" where
  "digitChar d = ''0123456789'' ! d"

fun toString :: "nat \<Rightarrow> string" where
  "toString n = (if n < 10 then [digitChar n] else toString (n div 10) @ [digitChar (n mod 10)])"

section \<open>The colour utilities of the chat component\<close>

text \<open>The type \<^verbatim>\<open>ColorInfo\<close> of \<^verbatim>\<open>chatbot.tsx\<close>.\<close>

record ColorInfo =
  hex :: string
  rgb :: string
  name :: string

subsection \<open>\<^verbatim>\<open>getContrastYIQ\<close>\<close>

text \<open>The value of a hexadecimal digit (the function is applied to such digits only).\<close>

definition hexDigitValue :: "char \<Rightarrow> nat" where
  "hexDigitValue c =
     (if c \<in> set ''0123456789'' then of_char c - 48
      else if c \<in> set ''ABCDEF'' then of_char c - 55
      else of_char c - 87)"

text \<open>
  \<^verbatim>\<open>parseInt(string, 16)\<close>, step by step as ECMAScript defines it: leading white space is
  skipped, a sign is read, a prefix \<^verbatim>\<open>0x\<close> or \<^verbatim>\<open>0X\<close> is skipped, and the longest
  run of hexadecimal digits that follows is the number. With no digit the result is
  \<^verbatim>\<open>NaN\<close>, here \<open>None\<close>. (The callers pass at most two characters, so the number is
  exact.)
\<close>

definition parseInt16 :: "string \<Rightarrow> int option" where
  "parseInt16 string =
     (let S = dropWhile isWhiteSpace string;
          sign = (if startsWith S ''-'' then - 1 else 1);
          S1 = (if startsWith S ''+'' \<or> startsWith S ''-'' then drop 1 S else S);
          S2 = (if startsWith S1 ''0x'' \<or> startsWith S1 ''0X'' then drop 2 S1 else S1);
          Z = takeWhile isHexDigit S2
      in if Z = [] then None
         else Some (sign * int (foldl (\<lambda>a c. 16 * a + hexDigitValue c) 0 Z)))"

text \<open>
  \<^verbatim>\<open>hex.replace("#", "")\<close> removes the first \<^verbatim>\<open>#\<close>, which is \<^term>\<open>remove1\<close>;
  \<^verbatim>\<open>c.substr(i, 2)\<close> is \<open>take 2 (drop i c)\<close>. The quotient by 1000 is a division of
  floating-point numbers whose dividend is an integer below \<open>2^53\<close>; rounding is monotone
  and 128 is a floating-point number, so the test \<^verbatim>\<open>yiq >= 128\<close> has the value it has on
  the exact quotient, which the model computes. Arithmetic on \<^verbatim>\<open>NaN\<close> gives
  \<^verbatim>\<open>NaN\<close>, and \<^verbatim>\<open>NaN >= 128\<close> is false.
\<close>

definition getContrastYIQ :: "string \<Rightarrow> string" where
  "getContrastYIQ h =
     (let c0 = remove1 (CHR ''#'') h;
          c = (if length c0 = 3 then [c0 ! 0, c0 ! 0, c0 ! 1, c0 ! 1, c0 ! 2, c0 ! 2] else c0);
          r = parseInt16 (take 2 c);
          g = parseInt16 (take 2 (drop 2 c));
          b = parseInt16 (take 2 (drop 4 c))
      in case (r, g, b) of
           (Some r, Some g, Some b) \<Rightarrow>
             (let yiq = real_of_int (r * 299 + g * 587 + b * 114) / 1000
              in if yiq \<ge> 128 then ''#222'' else ''#fff'')
         | _ \<Rightarrow> ''#fff'')"

subsection \<open>\<^verbatim>\<open>stripMainColorsSection\<close>\<close>

text \<open>\<^verbatim>\<open>text.slice(0, i)\<close> with \<open>i\<close> an index of \<open>text\<close> is \<open>take i text\<close>.\<close>

definition stripMainColorsSection :: "string \<Rightarrow> string" where
  "stripMainColorsSection text =
     (case indexOf text ''Main Colors:'' of
        Some mainColorsIndex \<Rightarrow> trim (take mainColorsIndex text)
      | None \<Rightarrow> trim text)"

subsection \<open>The regular expression of \<^verbatim>\<open>parseColorInfo\<close>\<close>

text \<open>
  The pattern of \<^verbatim>\<open>parseColorInfo\<close> is a sequence of literals, of character classes
  under a greedy quantifier (\<^verbatim>\<open>*\<close>, \<^verbatim>\<open>+\<close>, \<^verbatim>\<open>{n}\<close>) and of capture groups
  that are not nested. \<^typ>\<open>string\<close> arguments are the text from the current position on:
  the pattern has no anchor, no look-around and no back reference, so a match attempt reads
  nothing else.
\<close>

datatype regex =
    Lit string
  | Star "char \<Rightarrow> bool"
  | Plus "char \<Rightarrow> bool"
  | Times nat "char \<Rightarrow> bool"
  | Group "regex list"

text \<open>
  A greedy quantifier over a class takes as many characters as it can and gives them back
  one by one when the rest of the pattern fails: \<open>greedy P s\<close> lists what is left of
  \<open>s\<close> after each choice, the longest run first.
\<close>

fun greedy :: "(char \<Rightarrow> bool) \<Rightarrow> string \<Rightarrow> string list" where
  "greedy P [] = [[]]"
| "greedy P (c # cs) = (if P c then greedy P cs @ [c # cs] else [c # cs])"

text \<open>
  The state of a match attempt: the captures of the groups closed so far, and the text left.
  The matcher returns every way the pattern matches, in the order in which a backtracking
  matcher finds them; the head of the list is the match that \<^verbatim>\<open>exec\<close> reports.
\<close>

type_synonym matchState = "string list \<times> string"

fun matchAtom :: "regex \<Rightarrow> matchState \<Rightarrow> matchState list"
  and matchSeq :: "regex list \<Rightarrow> matchState \<Rightarrow> matchState list" where
  "matchAtom (Lit p) (caps, s) = (if startsWith s p then [(caps, drop (length p) s)] else [])"
| "matchAtom (Star P) (caps, s) = map (Pair caps) (greedy P s)"
| "matchAtom (Plus P) (caps, s) =
     map (Pair caps) (filter (\<lambda>r. length r < length s) (greedy P s))"
| "matchAtom (Times n P) (caps, s) =
     (if n \<le> length s \<and> list_all P (take n s) then [(caps, drop n s)] else [])"
| "matchAtom (Group rs) (caps, s) =
     map (\<lambda>(caps', r). (caps' @ [take (length s - length r) s], r)) (matchSeq rs (caps, s))"
| "matchSeq [] st = [st]"
| "matchSeq (r # rs) st = concat (map (matchSeq rs) (matchAtom r st))"

text \<open>
  \<^verbatim>\<open>/(\d+)\.\s*Name:\s*([^,]+),\s*Hex:\s*(#[0-9A-Fa-f]{6}),\s*RGB:\s*\((\d+),\s*(\d+),\s*(\d+)\)/g\<close>
\<close>

definition colorRegex :: "regex list" where
  "colorRegex =
     [Group [Plus isDigit], Lit ''.'', Star isWhiteSpace, Lit ''Name:'', Star isWhiteSpace,
      Group [Plus notComma], Lit '','', Star isWhiteSpace, Lit ''Hex:'', Star isWhiteSpace,
      Group [Lit ''#'', Times 6 isHexDigit], Lit '','', Star isWhiteSpace, Lit ''RGB:'',
      Star isWhiteSpace, Lit ''('', Group [Plus isDigit], Lit '','', Star isWhiteSpace,
      Group [Plus isDigit], Lit '','', Star isWhiteSpace, Group [Plus isDigit], Lit '')'']"

text \<open>
  \<^verbatim>\<open>regex.exec(text)\<close> of a global pattern, on the text from \<^verbatim>\<open>lastIndex\<close> on: the
  match at the leftmost position where the pattern matches, with the text after the match
  (the new \<^verbatim>\<open>lastIndex\<close>), or \<open>None\<close> for \<^verbatim>\<open>null\<close>.
\<close>

fun exec :: "regex list \<Rightarrow> string \<Rightarrow> matchState option" where
  "exec re s =
     (case matchSeq re ([], s) of
        m # _ \<Rightarrow> Some m
      | [] \<Rightarrow> (case s of [] \<Rightarrow> None | _ # cs \<Rightarrow> exec re cs))"

declare indexOf.simps [simp del] exec.simps [simp del] toString.simps [simp del]

text \<open>A match of \<open>colorRegex\<close> is never empty, which is why the loop below ends.\<close>

lemma greedy_suffix: "r \<in> set (greedy P s) \<Longrightarrow> \<exists>m. s = m @ r \<and> list_all P m"
proof (induction s)
  case Nil
  then show ?case by simp
next
  case (Cons c cs)
  show ?case
  proof (cases "r = c # cs")
    case True
    then show ?thesis by simp
  next
    case False
    with Cons.prems have "P c" "r \<in> set (greedy P cs)" by (auto split: if_splits)
    with Cons.IH obtain m where "cs = m @ r" "list_all P m" by blast
    with \<open>P c\<close> have "c # cs = (c # m) @ r \<and> list_all P (c # m)" by simp
    then show ?thesis by blast
  qed
qed

lemma match_length_le:
  "st' \<in> set (matchAtom re st) \<Longrightarrow> length (snd st') \<le> length (snd st)"
  "st' \<in> set (matchSeq res st) \<Longrightarrow> length (snd st') \<le> length (snd st)"
proof (induction re st and res st arbitrary: st' and st' rule: matchAtom_matchSeq.induct)
  case (1 p caps s)
  then show ?case by (auto split: if_splits)
next
  case (2 P caps s)
  then show ?case by (auto dest!: greedy_suffix)
next
  case (3 P caps s)
  then show ?case by auto
next
  case (4 n P caps s)
  then show ?case by (auto split: if_splits)
next
  case (5 rs caps s)
  then show ?case by fastforce
next
  case (6 st)
  then show ?case by simp
next
  case (7 r rs st)
  from "7.prems" obtain st1
    where a: "st1 \<in> set (matchAtom r st)" and b: "st' \<in> set (matchSeq rs st1)"
    by auto
  from "7.IH"(1)[OF a] "7.IH"(2)[OF a b] show ?case by simp
qed

lemma in_matchSeq_Cons:
  "st' \<in> set (matchSeq (r # rs) st) \<longleftrightarrow>
     (\<exists>st1 \<in> set (matchAtom r st). st' \<in> set (matchSeq rs st1))"
  by simp

lemma colorRegex_consumes:
  assumes "st' \<in> set (matchSeq colorRegex (caps, s))"
  shows "length (snd st') < length s"
proof -
  obtain rest where re: "colorRegex = Group [Plus isDigit] # rest"
    by (simp add: colorRegex_def)
  from assms obtain st1
    where a: "st1 \<in> set (matchAtom (Group [Plus isDigit]) (caps, s))"
      and b: "st' \<in> set (matchSeq rest st1)"
    unfolding re in_matchSeq_Cons by blast
  from a have "length (snd st1) < length s" by auto
  with match_length_le(2)[OF b] show ?thesis by simp
qed

lemma exec_shorter: "exec colorRegex s = Some (caps, r) \<Longrightarrow> length r < length s"
proof (induction s)
  case Nil
  then show ?case
    using colorRegex_consumes[of _ "[]" "[]"]
    by (subst (asm) exec.simps) (auto split: list.splits)
next
  case (Cons c cs)
  show ?case
  proof (cases "matchSeq colorRegex ([], c # cs)")
    case Nil
    with Cons.prems have "exec colorRegex cs = Some (caps, r)"
      by (subst (asm) exec.simps) simp
    with Cons.IH show ?thesis by simp
  next
    case (Cons m ms)
    with Cons.prems have "m = (caps, r)" by (subst (asm) exec.simps) simp
    with Cons colorRegex_consumes[of "(caps, r)" "[]" "c # cs"] show ?thesis by simp
  qed
qed

subsection \<open>\<^verbatim>\<open>parseColorInfo\<close>\<close>

text \<open>
  The loop \<^verbatim>\<open>while ((match = colorRegex.exec(text)) !== null)\<close>. The pattern is a
  literal of the function body, so every call starts at \<^verbatim>\<open>lastIndex = 0\<close>. The array
  \<^verbatim>\<open>match\<close> holds the whole match at index 0 and group \<open>k\<close> at index \<open>k\<close>; the model
  keeps the groups only, so \<^verbatim>\<open>match[k]\<close> is \<open>match ! (k - 1)\<close>. The function returns
  the object \<^verbatim>\<open>{ colors }\<close>; the model returns the array \<^verbatim>\<open>colors\<close>.
\<close>

function parseLoop :: "string \<Rightarrow> ColorInfo list \<Rightarrow> ColorInfo list" where
  "parseLoop s colors =
     (case exec colorRegex s of
        None \<Rightarrow> colors
      | Some (match, rest) \<Rightarrow>
          parseLoop rest
            (colors @
              [\<lparr>hex = match ! 2,
                rgb = ''('' @ match ! 3 @ '', '' @ match ! 4 @ '', '' @ match ! 5 @ '')'',
                name = trim (match ! 1)\<rparr>]))"
  by pat_completeness auto
termination
  by (relation "measure (\<lambda>(s, colors). length s)") (auto dest: exec_shorter)

declare parseLoop.simps [simp del]

definition parseColorInfo :: "string \<Rightarrow> ColorInfo list" where
  "parseColorInfo text = parseLoop text []"

section \<open>JSON text\<close>

text \<open>
  \<^verbatim>\<open>JSON.stringify\<close> on a string (ECMAScript's QuoteJSONString): the string in double
  quotes, with the double quote and the backslash escaped by a backslash, the control
  characters written \<^verbatim>\<open>\b \t \n \f \r\<close> or \<^verbatim>\<open>\u00XX\<close>, and every other code
  unit as it is.
\<close>

definition jsonEscape :: "char \<Rightarrow> string" where
  "jsonEscape c =
     (if c = CHR 0x22 then [CHR 0x5C, CHR 0x22]
      else if c = CHR 0x5C then [CHR 0x5C, CHR 0x5C]
      else if c = CHR 0x08 then [CHR 0x5C, CHR ''b'']
      else if c = CHR 0x09 then [CHR 0x5C, CHR ''t'']
      else if c = CHR 0x0A then [CHR 0x5C, CHR ''n'']
      else if c = CHR 0x0C then [CHR 0x5C, CHR ''f'']
      else if c = CHR 0x0D then [CHR 0x5C, CHR ''r'']
      else if (of_char c :: nat) < 32
        then CHR 0x5C # ''u00'' @
               [''0123456789abcdef'' ! (of_char c div 16), ''0123456789abcdef'' ! (of_char c mod 16)]
      else [c])"

definition quoteJSONString :: "string \<Rightarrow> string" where
  "quoteJSONString s = CHR 0x22 # concat (map jsonEscape s) @ [CHR 0x22]"

text \<open>A member \<^verbatim>\<open>"key":value\<close> whose value is a string.\<close>

definition jsonMember :: "string \<Rightarrow> string \<Rightarrow> string" where
  "jsonMember k v = CHR 0x22 # k @ [CHR 0x22, CHR '':''] @ quoteJSONString v"

text \<open>\<^verbatim>\<open>JSON.stringify({ text })\<close>, the payload of an event of the endpoint.\<close>

definition JSON_stringify_text :: "string \<Rightarrow> string" where
  "JSON_stringify_text text = ''{'' @ jsonMember ''text'' text @ ''}''"




section \<open>The chat component: what a submission sends\<close>

text \<open>A \<^verbatim>\<open>File\<close> of the browser: its name, its size, its media type and its bytes.\<close>

record File =
  fileName :: string
  fileSize :: nat
  fileType :: string
  fileBytes :: string

text \<open>An entry of a \<^verbatim>\<open>FormData\<close> holds a file or a string.\<close>

datatype FormValue = FileValue File | StringValue string




section \<open>The chat component: reading the event stream\<close>

datatype Role = User | Assistant

text \<open>The type \<^verbatim>\<open>ChatMessage\<close>; its field \<^verbatim>\<open>id\<close> is \<open>id_msg\<close> here.\<close>

record ChatMessage =
  id_msg :: string
  role :: Role
  content :: string
  imagePreview :: "string option"

text \<open>
  What the body of the loop over the lines observes of
  \<^verbatim>\<open>const data = JSON.parse(line.slice(6))\<close> and of \<^verbatim>\<open>data.text\<close>:
  \<^item> \<open>Thrown\<close>: \<^verbatim>\<open>JSON.parse\<close> throws, or the value is \<^verbatim>\<open>null\<close> and reading its
    property throws; the \<^verbatim>\<open>catch\<close> of the body logs and continues with the next line;
  \<^item> \<open>NoText\<close>: \<^verbatim>\<open>data.text\<close> is \<^verbatim>\<open>undefined\<close>, the empty string or another falsy
    value;
  \<^item> \<open>TextField t\<close>: \<^verbatim>\<open>data.text\<close> is truthy and \<open>t\<close> is the string that
    \<^verbatim>\<open>accumulatedText += data.text\<close> appends: the field itself when it is a string, as
    in every event of the endpoint.
  \<^verbatim>\<open>JSON.parse\<close> belongs to the platform; the functions below take the composition of the
  two steps as the parameter \<open>parse\<close>.
\<close>

datatype ParsedData = Thrown | NoText | TextField string

record StreamState =
  accumulatedText :: string
  messages :: "ChatMessage list"
  palette :: "ColorInfo list"

text \<open>
  The update \<^verbatim>\<open>setMessages((prev) => ...)\<close> of the loop: the message with the given id
  gets the new content, and is appended as an assistant message when there is none.
\<close>

definition upsertMessage :: "string \<Rightarrow> string \<Rightarrow> ChatMessage list \<Rightarrow> ChatMessage list" where
  "upsertMessage mid text prev =
     (case find (\<lambda>msg. id_msg msg = mid) prev of
        Some existingMessage \<Rightarrow>
          map (\<lambda>msg. if id_msg msg = mid then msg\<lparr>content := text\<rparr> else msg) prev
      | None \<Rightarrow>
          prev @ [\<lparr>id_msg = mid, role = Assistant, content = text, imagePreview = None\<rparr>])"

text \<open>
  The body of \<^verbatim>\<open>for (const line of lines)\<close> in the branch of \<^verbatim>\<open>handleSubmit\<close> that
  sent an image (\<open>imageToUse\<close> is a file there). \<open>newImage\<close> tells whether
  \<^verbatim>\<open>selectedImage\<close> is a file: whether the submission carried a new image. The palette of the component
  (\<open>palette\<close>) is replaced only by a non-empty result of \<^verbatim>\<open>parseColorInfo\<close>. The \<^verbatim>\<open>throw\<close> on
  \<^verbatim>\<open>data.error\<close> is caught by the \<^verbatim>\<open>catch\<close> of the body and changes nothing.
\<close>

definition processLine ::
  "(string \<Rightarrow> ParsedData) \<Rightarrow> bool \<Rightarrow> string \<Rightarrow> StreamState \<Rightarrow> string \<Rightarrow> StreamState" where
  "processLine parse newImage messageId st line =
     (case parse (drop 6 line) of
        TextField t \<Rightarrow>
          (let acc = accumulatedText st @ t;
               colors = parseColorInfo acc;
               pal = (if colors \<noteq> [] then colors else palette st);
               mid = messageId @ (if newImage then ''-analysis'' else ''-response'')
           in \<lparr>accumulatedText = acc,
               messages = upsertMessage mid (stripMainColorsSection acc) (messages st),
               palette = pal\<rparr>)
      | _ \<Rightarrow> st)"

text \<open>
  One turn of \<^verbatim>\<open>while (true)\<close> after a read that delivered a chunk: the chunk is split
  at line feeds, the lines that start with \<^verbatim>\<open>data: \<close> are kept and processed in order.
\<close>

definition processChunk ::
  "(string \<Rightarrow> ParsedData) \<Rightarrow> bool \<Rightarrow> string \<Rightarrow> StreamState \<Rightarrow> string \<Rightarrow> StreamState" where
  "processChunk parse newImage messageId st chunk =
     foldl (processLine parse newImage messageId) st
       (filter (\<lambda>line. startsWith line ''data: '') (splitLines chunk))"

text \<open>
  The state after the chunks read so far. The loop stops when the reader reports the end,
  when a read fails or when ten seconds passed since the last chunk; the last two add an
  error message and leave \<^verbatim>\<open>accumulatedText\<close> and the streamed message as they are, so
  every state of the loop is the state after some list of chunks.
\<close>

definition consumeChunks ::
  "(string \<Rightarrow> ParsedData) \<Rightarrow> bool \<Rightarrow> string \<Rightarrow> StreamState \<Rightarrow> string list \<Rightarrow> StreamState" where
  "consumeChunks parse newImage messageId st chunks =
     foldl (processChunk parse newImage messageId) st chunks"

section \<open>The endpoint \<^verbatim>\<open>POST /api/chat\<close>\<close>

text \<open>
  The model follows the handler of \<^verbatim>\<open>route.ts\<close> that knows the modes
  \<^verbatim>\<open>text-only\<close>, \<^verbatim>\<open>full\<close> and \<^verbatim>\<open>followup\<close>, the one the chat component talks to.
\<close>

subsection \<open>Values and requests\<close>

text \<open>
  The values that the variables \<^verbatim>\<open>imageFile\<close>, \<^verbatim>\<open>mode\<close>, \<^verbatim>\<open>question\<close> and
  \<^verbatim>\<open>currentPalette\<close> can hold: \<^verbatim>\<open>FormData.get\<close> gives a string, a file or
  \<^verbatim>\<open>null\<close>, and a property of a JSON object that is missing reads as \<^verbatim>\<open>undefined\<close>.
  (JSON numbers, booleans, arrays and objects as values of \<^verbatim>\<open>question\<close> or
  \<^verbatim>\<open>mode\<close> are outside the model.)
\<close>

datatype JsValue = Undefined | Null | Str string | FileObj File

definition truthy :: "JsValue \<Rightarrow> bool" where
  "truthy v =
     (case v of Undefined \<Rightarrow> False | Null \<Rightarrow> False | Str s \<Rightarrow> s \<noteq> [] | FileObj f \<Rightarrow> True)"

text \<open>The string a template literal writes for a value.\<close>

definition toStringJs :: "JsValue \<Rightarrow> string" where
  "toStringJs v =
     (case v of
        Undefined \<Rightarrow> ''undefined''
      | Null \<Rightarrow> ''null''
      | Str s \<Rightarrow> s
      | FileObj f \<Rightarrow> ''[object File]'')"

text \<open>\<^verbatim>\<open>formData.get(key)\<close>: the first entry of that name, or \<^verbatim>\<open>null\<close>.\<close>

definition formGet :: "(string \<times> FormValue) list \<Rightarrow> string \<Rightarrow> JsValue" where
  "formGet fd k =
     (case map_of fd k of
        None \<Rightarrow> Null
      | Some (StringValue s) \<Rightarrow> Str s
      | Some (FileValue f) \<Rightarrow> FileObj f)"

text \<open>
  What \<^verbatim>\<open>await req.json()\<close> resolves to, as far as the handler reads it: \<^verbatim>\<open>null\<close>,
  or a value with the properties \<^verbatim>\<open>question\<close> and \<^verbatim>\<open>mode\<close> (both
  \<^verbatim>\<open>undefined\<close> on a value that is not an object).
\<close>

datatype JsonBody = JsonNull | JsonValue JsValue JsValue

text \<open>
  The exceptions that reach the \<^verbatim>\<open>catch\<close> of the handler: reading the body rejects
  (with the message of the platform's error), a property of \<^verbatim>\<open>null\<close> is read, or the
  palette of a follow-up cannot be decoded.
\<close>

datatype Exception = BodyError string | NullProperty | PaletteError string

text \<open>
  A request: the header \<^verbatim>\<open>content-type\<close>, and what each way of reading the body gives
  (\<open>Inl\<close> when the promise rejects). The handler reads the body at most once, in the way
  the header selects.
\<close>

record Request =
  contentTypeHeader :: "string option"
  formData :: "string + (string \<times> FormValue) list"
  json :: "string + JsonBody"

subsection \<open>Prompts\<close>

definition textOnlyPrompt :: "JsValue \<Rightarrow> string" where
  "textOnlyPrompt question =
     ''You are a helpful AI assistant. Please provide a clear and concise response to the following question: ''
     @ toStringJs question"

definition fullPrompt :: string where
  "fullPrompt = join ''\<newline>''
     ['''',
      ''First, provide a detailed description of what you see in this image. Focus on:'',
      ''- The main subject or content'',
      ''- Any notable elements or patterns'',
      ''- The overall composition'',
      ''- Any text or symbols if present'',
      '''',
      ''Then, analyze and identify the 3 most dominant colors in the image.'',
      '''',
      ''For each color, provide:'',
      ''- A descriptive name'',
      ''- Hex code'',
      ''- RGB value'',
      '''',
      ''Format your complete response exactly as follows:'',
      '''',
      ''[Your detailed description of the image]'',
      '''',
      ''Main Colors:'',
      ''1. Name: [descriptive name], Hex: [hex code], RGB: [rgb value]'',
      ''2. Name: [descriptive name], Hex: [hex code], RGB: [rgb value]'',
      ''3. Name: [descriptive name], Hex: [hex code], RGB: [rgb value]'']"

text \<open>
  The lines that the follow-up prompt writes for the palette:
  \<^verbatim>\<open>`${index + 1}. Name: ${color.name}, Hex: ${color.hex}, RGB: ${color.rgb}`\<close>, joined
  by line feeds.
\<close>

definition paletteLine :: "nat \<Rightarrow> ColorInfo \<Rightarrow> string" where
  "paletteLine index color =
     toString (index + 1) @ ''. Name: '' @ name color @ '', Hex: '' @ hex color @ '', RGB: '' @
       rgb color"

definition paletteLines :: "ColorInfo list \<Rightarrow> string" where
  "paletteLines colors =
     join ''\<newline>'' (map (\<lambda>(index, color). paletteLine index color) (enumerate 0 colors))"

definition paletteContext :: "ColorInfo list option \<Rightarrow> string" where
  "paletteContext parsed =
     (case parsed of
        None \<Rightarrow> ''''
      | Some colors \<Rightarrow>
          join ''\<newline>''
            ['''', ''Current color palette from previous analysis:'', paletteLines colors, ''''])"

definition followupPrompt :: "JsValue \<Rightarrow> ColorInfo list option \<Rightarrow> string" where
  "followupPrompt question parsed = join ''\<newline>''
     ['''',
      ''You are analyzing an image that was previously uploaded. The user has a follow-up question about it.'',
      '''',
      ''User's question: '' @ toStringJs question,
      '''',
      paletteContext parsed,
      '''',
      ''Please provide a detailed and helpful response to their question, focusing specifically on what they're asking about in the image. If their question is about colors, make sure to reference the existing color palette in your response.'',
      '''',
      ''Format your response in a clear, conversational way.'']"

text \<open>
  \<^verbatim>\<open>basePrompt\<close>. In the mode \<^verbatim>\<open>followup\<close> a truthy \<^verbatim>\<open>currentPalette\<close> goes
  through \<^verbatim>\<open>JSON.parse(currentPalette).map(...)\<close>, which can throw; \<^verbatim>\<open>JSON.parse\<close>
  belongs to the platform and is the parameter \<open>JSON_parse\<close> (\<open>Inl\<close> with the message
  when the expression throws). Any other mode leaves the prompt empty.
\<close>

definition basePrompt ::
  "(string \<Rightarrow> string + ColorInfo list) \<Rightarrow> JsValue \<Rightarrow> JsValue \<Rightarrow> JsValue \<Rightarrow> Exception + string" where
  "basePrompt JSON_parse mode question currentPalette =
     (if mode = Str ''text-only'' then Inr (textOnlyPrompt question)
      else if mode = Str ''full'' then Inr fullPrompt
      else if mode = Str ''followup'' then
        (if truthy currentPalette then
           (case JSON_parse (toStringJs currentPalette) of
              Inl msg \<Rightarrow> Inl (PaletteError msg)
            | Inr colors \<Rightarrow> Inr (followupPrompt question (Some colors)))
         else Inr (followupPrompt question None))
      else Inr '''')"

subsection \<open>Relaying the stream of the model\<close>

text \<open>
  The stream of the model, as the loop \<^verbatim>\<open>for await (const chunk of result.stream)\<close>
  sees it: a chunk whose \<^verbatim>\<open>text()\<close> is a string, or an exception (of the call that
  opens the stream, of the iteration, of \<^verbatim>\<open>chunk.text()\<close> or of the write that follows
  it). The end of the list is the end of the stream.
\<close>

datatype ModelEvent = ChunkText string | Throws

text \<open>The call that opens the stream: the prompt alone, or the prompt and the image.\<close>

datatype ModelCall = GenerateText string | GenerateWithImage string File

datatype WriterStatus = Open | Closed | Aborted

text \<open>The writable side of the \<^verbatim>\<open>TransformStream\<close>: what was written, in order.\<close>

record Writer =
  written :: "string list"
  status :: WriterStatus

text \<open>
  The string that one \<^verbatim>\<open>writer.write\<close> encodes:
  \<^verbatim>\<open>`data: ${JSON.stringify({ text })}\n\n`\<close>.
\<close>

definition sseLine :: "string \<Rightarrow> string" where
  "sseLine text = ''data: '' @ JSON_stringify_text text @ ''\<newline>\<newline>''"

text \<open>
  The loop over the chunks, \<^verbatim>\<open>writer.close()\<close> after it, and \<^verbatim>\<open>writer.abort(error)\<close>
  in the \<^verbatim>\<open>catch\<close>.
\<close>

fun relay :: "Writer \<Rightarrow> ModelEvent list \<Rightarrow> Writer" where
  "relay writer [] = writer\<lparr>status := Closed\<rparr>"
| "relay writer (ChunkText text # stream) =
     relay (writer\<lparr>written := written writer @ [sseLine text]\<rparr>) stream"
| "relay writer (Throws # stream) = writer\<lparr>status := Aborted\<rparr>"

subsection \<open>The handler\<close>

text \<open>
  A response: a JSON body with a status, or the event stream. The body of an error is
  \<^verbatim>\<open>{ error }\<close> with a fixed message (\<open>ErrorMessage\<close>), or, from the \<^verbatim>\<open>catch\<close> of the
  handler, \<^verbatim>\<open>{ error, details }\<close> with the message and the stack of the exception
  (\<open>ErrorOf\<close>). An event stream records the call made to the model, if one was made, and
  the writer when the task that feeds it has ended.
\<close>

datatype ErrorBody = ErrorMessage string | ErrorOf Exception

datatype Response = JsonResponse nat ErrorBody | EventStream "ModelCall option" Writer

text \<open>
  Reading the request: the values of \<^verbatim>\<open>imageFile\<close>, \<^verbatim>\<open>mode\<close>, \<^verbatim>\<open>question\<close> and
  \<^verbatim>\<open>currentPalette\<close> after the branch on the content type, or the exception thrown
  there. A missing header reads as the empty string.
\<close>

definition readRequest :: "Request \<Rightarrow> Exception + (JsValue \<times> JsValue \<times> JsValue \<times> JsValue)" where
  "readRequest req =
     (let contentType = (case contentTypeHeader req of Some h \<Rightarrow> h | None \<Rightarrow> '''')
      in if includes_str contentType ''multipart/form-data'' then
           (case formData req of
              Inl msg \<Rightarrow> Inl (BodyError msg)
            | Inr fd \<Rightarrow>
                Inr (formGet fd ''image'', formGet fd ''mode'', formGet fd ''question'',
                     formGet fd ''currentPalette''))
         else if includes_str contentType ''application/json'' then
           (case json req of
              Inl msg \<Rightarrow> Inl (BodyError msg)
            | Inr JsonNull \<Rightarrow> Inl NullProperty
            | Inr (JsonValue question mode) \<Rightarrow> Inr (Null, mode, question, Str ''''))
         else Inr (Null, Str ''full'', Str '''', Str ''''))"

text \<open>
  The task that feeds the stream. In the mode \<^verbatim>\<open>text-only\<close> the model gets the prompt;
  otherwise it gets the prompt and the image, and \<^verbatim>\<open>imageFile.arrayBuffer()\<close> throws
  when \<^verbatim>\<open>imageFile\<close> is not a file, before any call. \<open>model\<close> is the stream that the
  hosted model answers a call with.
\<close>

definition streamTask ::
  "(ModelCall \<Rightarrow> ModelEvent list) \<Rightarrow> JsValue \<Rightarrow> string \<Rightarrow> JsValue \<Rightarrow> Response" where
  "streamTask model mode prompt imageFile =
     (let writer = \<lparr>written = [], status = Open\<rparr>
      in if mode = Str ''text-only'' then
           EventStream (Some (GenerateText prompt)) (relay writer (model (GenerateText prompt)))
         else
           (case imageFile of
              FileObj file \<Rightarrow>
                EventStream (Some (GenerateWithImage prompt file))
                  (relay writer (model (GenerateWithImage prompt file)))
            | _ \<Rightarrow> EventStream None (writer\<lparr>status := Aborted\<rparr>)))"

text \<open>
  \<^verbatim>\<open>POST\<close>. \<open>GOOGLE_API_KEY\<close> is the variable of the environment, \<open>None\<close> when it
  is not set; an empty value is falsy as well.
\<close>

definition POST ::
  "string option \<Rightarrow> (string \<Rightarrow> string + ColorInfo list) \<Rightarrow> (ModelCall \<Rightarrow> ModelEvent list) \<Rightarrow>
     Request \<Rightarrow> Response" where
  "POST GOOGLE_API_KEY JSON_parse model req =
     (if GOOGLE_API_KEY = None \<or> GOOGLE_API_KEY = Some '''' then
        JsonResponse 500
          (ErrorMessage ''Server configuration error: GOOGLE_API_KEY is not configured'')
      else
        case readRequest req of
          Inl e \<Rightarrow> JsonResponse 500 (ErrorOf e)
        | Inr (imageFile, mode, question, currentPalette) \<Rightarrow>
            if \<not> truthy imageFile \<and> mode \<noteq> Str ''text-only'' then
              JsonResponse 400 (ErrorMessage ''No image file provided'')
            else
              (case basePrompt JSON_parse mode question currentPalette of
                 Inl e \<Rightarrow> JsonResponse 500 (ErrorOf e)
               | Inr prompt \<Rightarrow> streamTask model mode prompt imageFile))"

section \<open>Notions of the specification\<close>

text \<open>The byte that two hexadecimal digits decode to.\<close>

definition byteValue :: "char \<Rightarrow> char \<Rightarrow> nat" where
  "byteValue hi lo = 16 * hexDigitValue hi + hexDigitValue lo"

text \<open>
  The text colour that the specification gives for the bytes \<open>r\<close>, \<open>g\<close>, \<open>b\<close>:
  \<^verbatim>\<open>#222\<close> when \<open>(299 r + 587 g + 114 b) / 1000\<close> is at least 128.
\<close>

definition yiqColor :: "nat \<Rightarrow> nat \<Rightarrow> nat \<Rightarrow> string" where
  "yiqColor r g b =
     (if (299 * real r + 587 * real g + 114 * real b) / 1000 \<ge> 128 then ''#222'' else ''#fff'')"

text \<open>The number that a string of decimal digits denotes.\<close>

definition decimalValue :: "string \<Rightarrow> nat" where
  "decimalValue ds = foldl (\<lambda>a c. 10 * a + (of_char c - 48)) 0 ds"

text \<open>A hex field as the specification wants it: \<^verbatim>\<open>#\<close> and six hexadecimal digits.\<close>

definition validHex :: "string \<Rightarrow> bool" where
  "validHex h = (length h = 7 \<and> hd h = CHR ''#'' \<and> list_all isHexDigit (tl h))"

text \<open>A non-empty string of decimal digits.\<close>

definition isNumeral :: "string \<Rightarrow> bool" where
  "isNumeral ds = (ds \<noteq> [] \<and> list_all isDigit ds)"

text \<open>The text \<^verbatim>\<open>(r, g, b)\<close> of three numerals.\<close>

definition rgbText :: "string \<Rightarrow> string \<Rightarrow> string \<Rightarrow> string" where
  "rgbText r g b = ''('' @ r @ '', '' @ g @ '', '' @ b @ '')''"

text \<open>
  A colour that can be written in the fixed form: a name without a comma that is not blank,
  a valid hex field, and an rgb field \<^verbatim>\<open>(r, g, b)\<close> of three numerals.
\<close>

definition wellFormedColor :: "ColorInfo \<Rightarrow> bool" where
  "wellFormedColor c =
     (list_all notComma (name c) \<and> trim (name c) \<noteq> [] \<and> validHex (hex c) \<and>
      (\<exists>r g b. rgb c = rgbText r g b \<and> isNumeral r \<and> isNumeral g \<and> isNumeral b))"

text \<open>The colour with its name trimmed.\<close>

definition trimName :: "ColorInfo \<Rightarrow> ColorInfo" where
  "trimName c = c\<lparr>name := trim (name c)\<rparr>"

text \<open>
  The lines of a list of chunks that start with \<^verbatim>\<open>data: \<close>, in the order of arrival, and
  the text fields of the lines that parse.
\<close>

definition dataLines :: "string list \<Rightarrow> string list" where
  "dataLines chunks =
     concat (map (\<lambda>chunk. filter (\<lambda>line. startsWith line ''data: '') (splitLines chunk)) chunks)"

definition textFields :: "(string \<Rightarrow> ParsedData) \<Rightarrow> string list \<Rightarrow> string list" where
  "textFields parse lines =
     concat (map (\<lambda>line. case parse (drop 6 line) of TextField t \<Rightarrow> [t] | _ \<Rightarrow> []) lines)"

text \<open>The assistant message that shows a streamed text.\<close>

definition streamedMessage :: "string \<Rightarrow> string \<Rightarrow> ChatMessage" where
  "streamedMessage mid text =
     \<lparr>id_msg = mid, role = Assistant, content = stripMainColorsSection text, imagePreview = None\<rparr>"

text \<open>
  The content type that the handler reads: the header, or the empty string without one.
\<close>

definition contentTypeOf :: "Request \<Rightarrow> string" where
  "contentTypeOf req = (case contentTypeHeader req of Some h \<Rightarrow> h | None \<Rightarrow> '''')"




text \<open>A file, for the examples.\<close>

definition barnPhoto :: File where
  "barnPhoto = \<lparr>fileName = ''barn.png'', fileSize = 2048, fileType = ''image/png'', fileBytes = ''PNG''\<rparr>"

text \<open>Two abbreviations for the proofs: the head of a list, and the colour built from a match.\<close>

definition first :: "'a list \<Rightarrow> 'a option" where
  "first xs = (case xs of [] \<Rightarrow> None | x # _ \<Rightarrow> Some x)"

definition colorOfMatch :: "string list \<Rightarrow> ColorInfo" where
  "colorOfMatch match =
     \<lparr>hex = match ! 2,
      rgb = ''('' @ match ! 3 @ '', '' @ match ! 4 @ '', '' @ match ! 5 @ '')'',
      name = trim (match ! 1)\<rparr>"

section \<open>Facts about strings\<close>

lemma startsWith_iff_prefix: "startsWith s pat \<longleftrightarrow> prefix pat s"
  unfolding startsWith_def prefix_def
  by (metis append_take_drop_id append_eq_conv_conj)

lemma indexOf_None_iff: "indexOf s pat = None \<longleftrightarrow> \<not> sublist pat s"
proof (induction s)
  case Nil
  show ?case by (subst indexOf.simps) (auto simp: startsWith_def)
next
  case (Cons c cs)
  show ?case
    by (subst indexOf.simps) (use Cons in \<open>auto simp: startsWith_iff_prefix sublist_Cons_right\<close>)
qed

lemma indexOf_Some_first:
  "indexOf s pat = Some i \<Longrightarrow> pat \<noteq> [] \<Longrightarrow> \<not> sublist pat (take i s)"
proof (induction s arbitrary: i)
  case Nil
  then show ?case by (subst (asm) indexOf.simps) (auto simp: startsWith_def split: if_splits)
next
  case (Cons c cs)
  show ?case
  proof (cases "startsWith (c # cs) pat")
    case True
    with Cons.prems show ?thesis by (subst (asm) indexOf.simps) simp
  next
    case False
    with Cons.prems obtain j where j: "indexOf cs pat = Some j" "i = Suc j"
      by (subst (asm) indexOf.simps) auto
    have "\<not> sublist pat (take j cs)" using Cons.IH[OF j(1) Cons.prems(2)] .
    moreover have "\<not> prefix pat (c # take j cs)"
    proof
      assume "prefix pat (c # take j cs)"
      moreover have "prefix (c # take j cs) (c # cs)" by (simp add: take_is_prefix)
      ultimately have "prefix pat (c # cs)" by (rule prefix_order.trans)
      with False show False by (simp add: startsWith_iff_prefix)
    qed
    ultimately show ?thesis using j(2) by (simp add: sublist_Cons_right)
  qed
qed

lemma dropWhile_rev_prefix: "prefix (rev (dropWhile P (rev xs))) xs"
  by (metis rev_rev_ident suffix_dropWhile suffix_to_prefix)

lemma trim_sublist: "sublist (trim s) s"
proof -
  have "prefix (trim s) (dropWhile isWhiteSpace s)"
    unfolding trim_def by (rule dropWhile_rev_prefix)
  then have "sublist (trim s) (dropWhile isWhiteSpace s)" by (rule prefix_imp_sublist)
  moreover have "sublist (dropWhile isWhiteSpace s) s"
    by (rule suffix_imp_sublist) (rule suffix_dropWhile)
  ultimately show ?thesis by (rule sublist_order.order.trans)
qed

lemma dropWhile_fix: "xs = [] \<or> \<not> P (hd xs) \<Longrightarrow> dropWhile P xs = xs"
  by (cases xs) auto

lemma hd_dropWhile_rev:
  assumes "xs = [] \<or> \<not> P (hd xs)"
  shows "rev (dropWhile Q (rev xs)) = [] \<or> \<not> P (hd (rev (dropWhile Q (rev xs))))"
proof -
  obtain zs where zs: "xs = rev (dropWhile Q (rev xs)) @ zs"
    using dropWhile_rev_prefix[of Q xs] by (auto simp: prefix_def)
  show ?thesis
  proof (cases "rev (dropWhile Q (rev xs)) = []")
    case True
    then show ?thesis by simp
  next
    case False
    then have "hd xs = hd (rev (dropWhile Q (rev xs)))"
      by (subst zs) simp
    moreover from False zs have "xs \<noteq> []" by auto
    ultimately show ?thesis using assms by simp
  qed
qed

lemma trim_trim: "trim (trim s) = trim s"
proof -
  let ?d = "dropWhile isWhiteSpace s"
  have d: "?d = [] \<or> \<not> isWhiteSpace (hd ?d)"
    by (metis hd_dropWhile)
  have "dropWhile isWhiteSpace (trim s) = trim s"
    unfolding trim_def
    by (rule dropWhile_fix) (rule hd_dropWhile_rev[of ?d isWhiteSpace, OF d])
  moreover have "rev (dropWhile isWhiteSpace (rev (trim s))) = trim s"
    unfolding trim_def by simp
  ultimately show ?thesis
    by (subst trim_def) simp
qed

section \<open>\<^verbatim>\<open>stripMainColorsSection\<close>\<close>

text \<open>
  C9. For every text, \<^verbatim>\<open>stripMainColorsSection\<close> returns a prefix of the text with the
  white space trimmed at both ends, the result does not contain \<^verbatim>\<open>Main Colors:\<close>, and
  stripping the result again gives the result.
\<close>

theorem stripMainColorsSection_trimmed_prefix_idempotent:
  "(\<exists>p. prefix p text \<and> stripMainColorsSection text = trim p)
   \<and> \<not> sublist ''Main Colors:'' (stripMainColorsSection text)
   \<and> stripMainColorsSection (stripMainColorsSection text) = stripMainColorsSection text"
proof -
  let ?r = "stripMainColorsSection text"
  have "\<exists>p. prefix p text \<and> ?r = trim p \<and> \<not> sublist ''Main Colors:'' p"
  proof (cases "indexOf text ''Main Colors:''")
    case None
    then have "?r = trim text" by (simp add: stripMainColorsSection_def)
    moreover from None have "\<not> sublist ''Main Colors:'' text" by (simp add: indexOf_None_iff)
    ultimately show ?thesis by blast
  next
    case (Some i)
    then have "?r = trim (take i text)" by (simp add: stripMainColorsSection_def)
    moreover have "\<not> sublist ''Main Colors:'' (take i text)"
      by (rule indexOf_Some_first[OF Some]) simp
    ultimately show ?thesis using take_is_prefix by blast
  qed
  then obtain p where p: "prefix p text" "?r = trim p" "\<not> sublist ''Main Colors:'' p"
    by blast
  have n: "\<not> sublist ''Main Colors:'' ?r"
    using p(3) trim_sublist[of p] unfolding p(2) by (blast intro: sublist_order.order.trans)
  then have "indexOf ?r ''Main Colors:'' = None" by (simp add: indexOf_None_iff)
  then have "stripMainColorsSection ?r = trim ?r"
    by (simp add: stripMainColorsSection_def)
  also have "\<dots> = ?r" unfolding p(2) by (rule trim_trim)
  finally show ?thesis using p n by blast
qed

text \<open>The theorem at a text with two sections: the text before the first one is kept.\<close>

theorem stripMainColorsSection_witness:
  "stripMainColorsSection '' A red barn. Main Colors: 1. Main Colors: 2.'' = ''A red barn.''
   \<and> \<not> sublist ''Main Colors:'' ''A red barn.''
   \<and> stripMainColorsSection ''A red barn.'' = ''A red barn.''"
proof -
  have e: "stripMainColorsSection '' A red barn. Main Colors: 1. Main Colors: 2.'' = ''A red barn.''"
    by code_simp
  show ?thesis
    using stripMainColorsSection_trimmed_prefix_idempotent
      [of "'' A red barn. Main Colors: 1. Main Colors: 2.''"]
    unfolding e by blast
qed

section \<open>\<^verbatim>\<open>getContrastYIQ\<close>\<close>

lemma isHexDigit_not_special:
  assumes "isHexDigit c"
  shows "\<not> isWhiteSpace c" "c \<noteq> CHR ''-''" "c \<noteq> CHR ''+''" "c \<noteq> CHR ''x''" "c \<noteq> CHR ''X''"
    "c \<noteq> CHR ''#''"
  using assms by (auto simp: isHexDigit_def isWhiteSpace_def)

lemma parseInt16_two:
  assumes "isHexDigit a" "isHexDigit b"
  shows "parseInt16 [a, b] = Some (int (byteValue a b))"
  using assms isHexDigit_not_special[OF assms(1)] isHexDigit_not_special[OF assms(2)]
  by (simp add: parseInt16_def startsWith_def byteValue_def)

lemma getContrastYIQ_digits6:
  assumes "list_all isHexDigit [a, b, c, d, e, f]"
  shows "getContrastYIQ [a, b, c, d, e, f] =
           yiqColor (byteValue a b) (byteValue c d) (byteValue e f)"
    and "getContrastYIQ (CHR ''#'' # [a, b, c, d, e, f]) = getContrastYIQ [a, b, c, d, e, f]"
proof -
  have h: "isHexDigit a" "isHexDigit b" "isHexDigit c" "isHexDigit d" "isHexDigit e" "isHexDigit f"
    using assms by simp_all
  have r: "remove1 (CHR ''#'') [a, b, c, d, e, f] = [a, b, c, d, e, f]"
    using h[THEN isHexDigit_not_special(6)] by simp
  show "getContrastYIQ [a, b, c, d, e, f] =
          yiqColor (byteValue a b) (byteValue c d) (byteValue e f)"
    unfolding getContrastYIQ_def r
    by (simp add: parseInt16_two h yiqColor_def algebra_simps)
  show "getContrastYIQ (CHR ''#'' # [a, b, c, d, e, f]) = getContrastYIQ [a, b, c, d, e, f]"
    unfolding getContrastYIQ_def r by simp
qed

lemma getContrastYIQ_digits3:
  assumes "list_all isHexDigit [a, b, c]"
  shows "getContrastYIQ [a, b, c] = getContrastYIQ [a, a, b, b, c, c]"
    and "getContrastYIQ (CHR ''#'' # [a, b, c]) = getContrastYIQ [a, b, c]"
proof -
  have h: "isHexDigit a" "isHexDigit b" "isHexDigit c"
    using assms by simp_all
  have r: "remove1 (CHR ''#'') [a, b, c] = [a, b, c]"
      "remove1 (CHR ''#'') [a, a, b, b, c, c] = [a, a, b, b, c, c]"
    using h[THEN isHexDigit_not_special(6)] by simp_all
  show "getContrastYIQ [a, b, c] = getContrastYIQ [a, a, b, b, c, c]"
    unfolding getContrastYIQ_def r by simp
  show "getContrastYIQ (CHR ''#'' # [a, b, c]) = getContrastYIQ [a, b, c]"
    unfolding getContrastYIQ_def r by simp
qed

lemma length_6_list: "length xs = 6 \<Longrightarrow> xs = [xs ! 0, xs ! 1, xs ! 2, xs ! 3, xs ! 4, xs ! 5]"
  by (auto simp: list_eq_iff_nth_eq less_Suc_eq numeral_eq_Suc)

lemma length_3_list: "length xs = 3 \<Longrightarrow> xs = [xs ! 0, xs ! 1, xs ! 2]"
  by (auto simp: list_eq_iff_nth_eq less_Suc_eq numeral_eq_Suc)

text \<open>
  C10. For six hexadecimal digits, with or without a leading \<^verbatim>\<open>#\<close>,
  \<^verbatim>\<open>getContrastYIQ\<close> returns \<^verbatim>\<open>#222\<close> when \<open>(299 r + 587 g + 114 b) / 1000\<close> is at
  least 128 and \<^verbatim>\<open>#fff\<close> otherwise, where \<open>r\<close>, \<open>g\<close>, \<open>b\<close> are the bytes that
  the three pairs of digits decode to; three digits are read with each digit doubled; and
  on every string the result is one of the two colours.
\<close>

theorem getContrastYIQ_yiq:
  "(list_all isHexDigit ds \<and> length ds = 6 \<longrightarrow>
      getContrastYIQ ds =
        yiqColor (byteValue (ds ! 0) (ds ! 1)) (byteValue (ds ! 2) (ds ! 3))
          (byteValue (ds ! 4) (ds ! 5))
      \<and> getContrastYIQ (CHR ''#'' # ds) = getContrastYIQ ds)
   \<and> (list_all isHexDigit ds \<and> length ds = 3 \<longrightarrow>
      getContrastYIQ ds =
        yiqColor (byteValue (ds ! 0) (ds ! 0)) (byteValue (ds ! 1) (ds ! 1))
          (byteValue (ds ! 2) (ds ! 2))
      \<and> getContrastYIQ (CHR ''#'' # ds) = getContrastYIQ ds)
   \<and> (getContrastYIQ h = ''#222'' \<or> getContrastYIQ h = ''#fff'')"
proof (intro conjI impI)
  assume a: "list_all isHexDigit ds \<and> length ds = 6"
  then obtain a b c d e f where ds: "ds = [a, b, c, d, e, f]"
    using length_6_list by blast
  from a have h: "list_all isHexDigit [a, b, c, d, e, f]"
    unfolding ds by simp
  show "getContrastYIQ ds =
          yiqColor (byteValue (ds ! 0) (ds ! 1)) (byteValue (ds ! 2) (ds ! 3))
            (byteValue (ds ! 4) (ds ! 5))"
    unfolding ds using getContrastYIQ_digits6(1)[OF h] by simp
  show "getContrastYIQ (CHR ''#'' # ds) = getContrastYIQ ds"
    unfolding ds by (rule getContrastYIQ_digits6(2)[OF h])
next
  assume a: "list_all isHexDigit ds \<and> length ds = 3"
  then obtain a b c where ds: "ds = [a, b, c]"
    using length_3_list by blast
  from a have h: "list_all isHexDigit [a, b, c]"
    unfolding ds by simp
  then have h6: "list_all isHexDigit [a, a, b, b, c, c]"
    by simp
  show "getContrastYIQ ds =
          yiqColor (byteValue (ds ! 0) (ds ! 0)) (byteValue (ds ! 1) (ds ! 1))
            (byteValue (ds ! 2) (ds ! 2))"
    unfolding ds using getContrastYIQ_digits3(1)[OF h] getContrastYIQ_digits6(1)[OF h6] by simp
  show "getContrastYIQ (CHR ''#'' # ds) = getContrastYIQ ds"
    unfolding ds by (rule getContrastYIQ_digits3(2)[OF h])
next
  show "getContrastYIQ h = ''#222'' \<or> getContrastYIQ h = ''#fff''"
    unfolding getContrastYIQ_def Let_def by (simp split: option.splits)
qed

text \<open>
  The theorem at the grey \<^verbatim>\<open>808080\<close>, whose bytes are 128 each, so that the quotient is
  128 exactly and the colour is \<^verbatim>\<open>#222\<close>.
\<close>

theorem getContrastYIQ_yiq_witness:
  "list_all isHexDigit ''808080'' \<and> length ''808080'' = 6
   \<and> getContrastYIQ ''808080'' = yiqColor 128 128 128
   \<and> getContrastYIQ ''#808080'' = getContrastYIQ ''808080''
   \<and> yiqColor 128 128 128 = ''#222''"
proof -
  have h: "list_all isHexDigit ''808080'' \<and> length ''808080'' = 6"
    by (simp add: isHexDigit_def)
  have b: "byteValue CHR ''8'' CHR ''0'' = 128"
    by (simp add: byteValue_def hexDigitValue_def)
  have y: "yiqColor 128 128 128 = ''#222''"
    by (simp add: yiqColor_def)
  from getContrastYIQ_yiq[of "''808080''"] h b y show ?thesis
    by simp
qed

section \<open>Facts about the matcher\<close>

subsection \<open>What a match captures\<close>

declare matchAtom.simps [simp del] matchSeq.simps [simp del]

lemma in_Lit: "(caps', r) \<in> set (matchAtom (Lit p) (caps, s)) \<Longrightarrow> caps' = caps"
  by (auto simp: matchAtom.simps split: if_splits)

lemma in_Star: "(caps', r) \<in> set (matchAtom (Star P) (caps, s)) \<Longrightarrow> caps' = caps"
  by (auto simp: matchAtom.simps)

lemma in_Group_Plus:
  assumes "(caps', r) \<in> set (matchAtom (Group [Plus P]) (caps, s))"
  shows "\<exists>m. caps' = caps @ [m] \<and> m \<noteq> [] \<and> list_all P m"
proof -
  from assms have r: "r \<in> set (greedy P s)" "length r < length s"
    and c: "caps' = caps @ [take (length s - length r) s]"
    by (auto simp: matchAtom.simps matchSeq.simps)
  from greedy_suffix[OF r(1)] obtain m where m: "s = m @ r" "list_all P m" by blast
  with r(2) have "take (length s - length r) s = m" "m \<noteq> []" by auto
  with c m(2) show ?thesis by simp
qed

lemma in_Group_hex:
  assumes "(caps', r) \<in> set (matchAtom (Group [Lit ''#'', Times 6 isHexDigit]) (caps, s))"
  shows "\<exists>h. caps' = caps @ [CHR ''#'' # h] \<and> length h = 6 \<and> list_all isHexDigit h"
proof -
  from assms obtain s1 where s: "s = CHR ''#'' # s1" and l: "6 \<le> length s1"
    and h: "list_all isHexDigit (take 6 s1)"
    and c: "caps' = caps @ [take (length s - length (drop 6 s1)) s]"
    by (cases s) (auto simp: matchAtom.simps matchSeq.simps startsWith_def split: if_splits)
  from s l have "take (length s - length (drop 6 s1)) s = CHR ''#'' # take 6 s1"
    by simp
  with c h l show ?thesis by simp
qed

lemma in_matchSeq_ConsE:
  assumes "st' \<in> set (matchSeq (r # rs) st)"
  obtains caps1 s1 where "(caps1, s1) \<in> set (matchAtom r st)" "st' \<in> set (matchSeq rs (caps1, s1))"
  using assms by (auto simp: matchSeq.simps)

lemma in_matchSeq_Nil: "st' \<in> set (matchSeq [] st) \<Longrightarrow> st' = st"
  by (simp add: matchSeq.simps)

lemma colorRegex_captures:
  assumes "(caps, r) \<in> set (matchSeq colorRegex ([], s))"
  shows "\<exists>m1 m2 h m4 m5 m6.
           caps = [m1, m2, CHR ''#'' # h, m4, m5, m6] \<and> isNumeral m1 \<and>
           m2 \<noteq> [] \<and> list_all notComma m2 \<and> length h = 6 \<and> list_all isHexDigit h \<and>
           isNumeral m4 \<and> isNumeral m5 \<and> isNumeral m6"
  using assms unfolding colorRegex_def isNumeral_def
  by (elim in_matchSeq_ConsE) (auto dest!: in_matchSeq_Nil in_Lit in_Star in_Group_Plus in_Group_hex)

lemma exec_captures:
  "exec colorRegex s = Some (caps, r) \<Longrightarrow> \<exists>s'. (caps, r) \<in> set (matchSeq colorRegex ([], s'))"
proof (induction s)
  case Nil
  then have "matchSeq colorRegex ([], []) \<noteq> [] \<and> hd (matchSeq colorRegex ([], [])) = (caps, r)"
    by (subst (asm) exec.simps) (auto split: list.splits)
  then have "(caps, r) \<in> set (matchSeq colorRegex ([], []))"
    using hd_in_set by metis
  then show ?case by blast
next
  case (Cons c cs)
  show ?case
  proof (cases "matchSeq colorRegex ([], c # cs)")
    case Nil
    with Cons.prems have "exec colorRegex cs = Some (caps, r)"
      by (subst (asm) exec.simps) simp
    then show ?thesis by (rule Cons.IH)
  next
    case (Cons m ms)
    with Cons.prems have "m = (caps, r)"
      by (subst (asm) exec.simps) simp
    with Cons have "(caps, r) \<in> set (matchSeq colorRegex ([], c # cs))" by simp
    then show ?thesis by blast
  qed
qed

lemma parseLoop_members:
  assumes "c \<in> set (parseLoop s colors)"
  shows "c \<in> set colors \<or> (\<exists>caps r s'. (caps, r) \<in> set (matchSeq colorRegex ([], s')) \<and> c = colorOfMatch caps)"
  using assms
proof (induction s colors rule: parseLoop.induct)
  case (1 s colors)
  show ?case
  proof (cases "exec colorRegex s")
    case None
    with "1.prems" show ?thesis by (subst (asm) parseLoop.simps) simp
  next
    case (Some m)
    obtain caps r where m: "m = (caps, r)" by (cases m)
    from "1.prems" Some m have "c \<in> set (parseLoop r (colors @ [colorOfMatch caps]))"
      by (subst (asm) parseLoop.simps) (simp add: colorOfMatch_def)
    from "1.IH"[OF Some[unfolded m] refl this[unfolded colorOfMatch_def], folded colorOfMatch_def]
    show ?thesis using exec_captures[OF Some[unfolded m]] by auto
  qed
qed

lemma parseColorInfo_members:
  assumes "c \<in> set (parseColorInfo text)"
  shows "\<exists>m1 m2 h m4 m5 m6.
           c = \<lparr>hex = CHR ''#'' # h, rgb = rgbText m4 m5 m6, name = trim m2\<rparr> \<and> isNumeral m1 \<and>
           m2 \<noteq> [] \<and> list_all notComma m2 \<and> length h = 6 \<and> list_all isHexDigit h \<and>
           isNumeral m4 \<and> isNumeral m5 \<and> isNumeral m6"
proof -
  from parseLoop_members[OF assms[unfolded parseColorInfo_def]]
  obtain caps r s' where m: "(caps, r) \<in> set (matchSeq colorRegex ([], s'))" "c = colorOfMatch caps"
    by auto
  from colorRegex_captures[OF m(1)] obtain m1 m2 h m4 m5 m6
    where caps: "caps = [m1, m2, CHR ''#'' # h, m4, m5, m6]"
      and p: "isNumeral m1" "m2 \<noteq> []" "list_all notComma m2" "length h = 6"
        "list_all isHexDigit h" "isNumeral m4" "isNumeral m5" "isNumeral m6"
    by blast
  have "c = \<lparr>hex = CHR ''#'' # h, rgb = rgbText m4 m5 m6, name = trim m2\<rparr>"
    unfolding m(2) caps by (simp add: colorOfMatch_def rgbText_def)
  with p show ?thesis by blast
qed

subsection \<open>The first match\<close>

lemma first_simps [simp]: "first [] = None" "first (x # xs) = Some x"
  by (simp_all add: first_def)

lemma first_append: "first (xs @ ys) = (case first xs of Some x \<Rightarrow> Some x | None \<Rightarrow> first ys)"
  by (cases xs) simp_all

lemma exec_first:
  "exec re s =
     (case first (matchSeq re ([], s)) of
        Some m \<Rightarrow> Some m
      | None \<Rightarrow> (case s of [] \<Rightarrow> None | _ # cs \<Rightarrow> exec re cs))"
  by (subst exec.simps) (simp add: first_def split: list.splits)

lemma first_matchSeq_Nil: "first (matchSeq [] st) = Some st"
  by (simp add: matchSeq.simps)

lemma first_matchSeq_Lit:
  "first (matchSeq (Lit p # rs) (caps, s)) =
     (if startsWith s p then first (matchSeq rs (caps, drop (length p) s)) else None)"
  by (simp add: matchSeq.simps matchAtom.simps)

lemma greedy_hd: "\<exists>g. greedy P s = dropWhile P s # g"
proof (induction s)
  case Nil
  show ?case by simp
next
  case (Cons c cs)
  then obtain g where "greedy P cs = dropWhile P cs # g" by blast
  then show ?case by simp
qed

lemma first_matchSeq_Star:
  assumes "first (matchSeq rs (caps, dropWhile P s)) = Some y"
  shows "first (matchSeq (Star P # rs) (caps, s)) = Some y"
proof -
  obtain g where g: "greedy P s = dropWhile P s # g"
    using greedy_hd by blast
  have "matchSeq (Star P # rs) (caps, s) =
          matchSeq rs (caps, dropWhile P s) @ concat (map (matchSeq rs) (map (Pair caps) g))"
    by (simp add: matchSeq.simps matchAtom.simps g)
  with assms show ?thesis by (simp add: first_append)
qed

lemma length_dropWhile_less: "takeWhile P s \<noteq> [] \<Longrightarrow> length (dropWhile P s) < length s"
  by (cases s) (auto simp: le_imp_less_Suc length_dropWhile_le split: if_splits)

lemma length_minus_dropWhile: "take (length s - length (dropWhile P s)) s = takeWhile P s"
proof -
  have "length s - length (dropWhile P s) = length (takeWhile P s)"
    by (metis add_diff_cancel_right' length_append takeWhile_dropWhile_id)
  then show ?thesis
    by (metis append_eq_conv_conj takeWhile_dropWhile_id)
qed

lemma first_matchSeq_Group_Plus:
  assumes "takeWhile P s \<noteq> []"
    and "first (matchSeq rs (caps @ [takeWhile P s], dropWhile P s)) = Some y"
  shows "first (matchSeq (Group [Plus P] # rs) (caps, s)) = Some y"
proof -
  obtain g where g: "greedy P s = dropWhile P s # g"
    using greedy_hd by blast
  have "matchAtom (Group [Plus P]) (caps, s) =
          (caps @ [takeWhile P s], dropWhile P s) #
            map (\<lambda>r. (caps @ [take (length s - length r) s], r))
              (filter (\<lambda>r. length r < length s) g)"
    using length_dropWhile_less[OF assms(1)]
    by (simp add: matchSeq.simps matchAtom.simps g length_minus_dropWhile comp_def)
  then have "matchSeq (Group [Plus P] # rs) (caps, s) =
          matchSeq rs (caps @ [takeWhile P s], dropWhile P s) @
            concat (map (matchSeq rs)
              (map (\<lambda>r. (caps @ [take (length s - length r) s], r))
                (filter (\<lambda>r. length r < length s) g)))"
    by (simp add: matchSeq.simps)
  with assms(2) show ?thesis by (simp add: first_append)
qed

lemma first_matchSeq_Group_Plus_None:
  "takeWhile P s = [] \<Longrightarrow> first (matchSeq (Group [Plus P] # rs) (caps, s)) = None"
  by (cases s) (auto simp: matchSeq.simps matchAtom.simps split: if_splits)

lemma first_matchSeq_Group_hex:
  assumes "length h = 6" "list_all isHexDigit h"
  shows "first (matchSeq (Group [Lit ''#'', Times 6 isHexDigit] # rs) (caps, CHR ''#'' # h @ s)) =
           first (matchSeq rs (caps @ [CHR ''#'' # h], s))"
  using assms by (simp add: matchSeq.simps matchAtom.simps startsWith_def)

lemma first_Star:
  "first (matchSeq (Star P # rs) (caps, s)) =
     (case first (matchSeq rs (caps, dropWhile P s)) of
        Some y \<Rightarrow> Some y
      | None \<Rightarrow> first (concat (map (matchSeq rs) (map (Pair caps) (tl (greedy P s))))))"
proof -
  obtain g where g: "greedy P s = dropWhile P s # g"
    using greedy_hd by blast
  show ?thesis
    by (simp add: matchSeq.simps matchAtom.simps g first_append split: option.split)
qed

lemma first_Group_Plus:
  "first (matchSeq (Group [Plus P] # rs) (caps, s)) =
     (if takeWhile P s = [] then None
      else case first (matchSeq rs (caps @ [takeWhile P s], dropWhile P s)) of
             Some y \<Rightarrow> Some y
           | None \<Rightarrow>
               first (concat (map (matchSeq rs)
                 (map (\<lambda>r. (caps @ [take (length s - length r) s], r))
                   (filter (\<lambda>r. length r < length s) (tl (greedy P s)))))))"
proof (cases "takeWhile P s = []")
  case True
  then show ?thesis by (simp add: first_matchSeq_Group_Plus_None)
next
  case False
  obtain g where g: "greedy P s = dropWhile P s # g"
    using greedy_hd by blast
  have "matchAtom (Group [Plus P]) (caps, s) =
          (caps @ [takeWhile P s], dropWhile P s) #
            map (\<lambda>r. (caps @ [take (length s - length r) s], r))
              (filter (\<lambda>r. length r < length s) g)"
    using length_dropWhile_less[OF False]
    by (simp add: matchSeq.simps matchAtom.simps g length_minus_dropWhile comp_def)
  then show ?thesis using False
    by (simp add: matchSeq.simps first_append g split: option.split)
qed

lemma takeWhile_stop: "list_all P m \<Longrightarrow> \<not> P c \<Longrightarrow> takeWhile P (m @ c # x) = m"
  by (induction m) auto

lemma dropWhile_stop: "list_all P m \<Longrightarrow> \<not> P c \<Longrightarrow> dropWhile P (m @ c # x) = c # x"
  by (induction m) auto

lemma takeWhile_all: "list_all P m \<Longrightarrow> takeWhile P m = m"
  by (induction m) auto

lemma dropWhile_append_keep:
  "dropWhile P xs \<noteq> [] \<Longrightarrow> dropWhile P (xs @ ys) = dropWhile P xs @ ys"
  by (induction xs) auto

lemma trim_Nil:
  assumes "dropWhile isWhiteSpace s = []"
  shows "trim s = []"
  unfolding trim_def assms by simp

lemma trim_nonempty_dropWhile: "trim s \<noteq> [] \<Longrightarrow> dropWhile isWhiteSpace s \<noteq> []"
  using trim_Nil by blast

lemma list_all_dropWhile: "list_all P xs \<Longrightarrow> list_all P (dropWhile Q xs)"
  by (induction xs) auto

lemma isDigit_not_isWhiteSpace: "isDigit c \<Longrightarrow> \<not> isWhiteSpace c"
  by (auto simp: isDigit_def isWhiteSpace_def)

lemma dropWhile_digits:
  "m \<noteq> [] \<Longrightarrow> list_all isDigit m \<Longrightarrow> dropWhile isWhiteSpace (m @ x) = m @ x"
  by (cases m) (simp_all add: isDigit_not_isWhiteSpace)

lemma match_line_aux:
  assumes d: "n \<noteq> []" "list_all isDigit n" "r \<noteq> []" "list_all isDigit r" "g \<noteq> []"
      "list_all isDigit g" "b \<noteq> []" "list_all isDigit b"
    and nm': "nm' \<noteq> []" "list_all notComma nm'"
      "\<And>ys. dropWhile isWhiteSpace (nm @ ys) = nm' @ ys"
    and h: "length h = 6" "list_all isHexDigit h"
  shows "first (matchSeq colorRegex
           ([], n @ ''. Name: '' @ nm @ '', Hex: '' @ (CHR ''#'' # h) @ '', RGB: '' @
                rgbText r g b @ rest)) =
         Some ([n, nm', CHR ''#'' # h, r, g, b], rest)"
proof -
  have c: "\<not> isDigit CHR ''.''" "\<not> isDigit CHR '',''" "\<not> isDigit CHR '')''" "\<not> notComma CHR '',''"
    by (simp_all add: isDigit_def notComma_def)
  have ws: "isWhiteSpace CHR '' ''" "\<not> isWhiteSpace CHR ''N''" "\<not> isWhiteSpace CHR ''H''"
    "\<not> isWhiteSpace CHR ''#''" "\<not> isWhiteSpace CHR ''R''" "\<not> isWhiteSpace CHR ''(''"
    by (simp_all add: isWhiteSpace_def)
  have dws: "\<And>x. dropWhile isWhiteSpace (g @ x) = g @ x" "\<And>x. dropWhile isWhiteSpace (b @ x) = b @ x"
    using d by (simp_all add: dropWhile_digits)
  show ?thesis
    unfolding colorRegex_def rgbText_def
    by (simp add: first_Star first_Group_Plus first_matchSeq_Lit first_matchSeq_Group_hex
        first_matchSeq_Nil takeWhile_stop dropWhile_stop nm' d c h startsWith_def ws dws)
qed

lemma match_line:
  assumes n: "isNumeral n"
    and nm: "list_all notComma nm" "trim nm \<noteq> []"
    and h: "length h = 6" "list_all isHexDigit h"
    and rgb: "isNumeral r" "isNumeral g" "isNumeral b"
  shows "first (matchSeq colorRegex
           ([], n @ ''. Name: '' @ nm @ '', Hex: '' @ (CHR ''#'' # h) @ '', RGB: '' @
                rgbText r g b @ rest)) =
         Some ([n, dropWhile isWhiteSpace nm, CHR ''#'' # h, r, g, b], rest)"
proof (rule match_line_aux)
  show "n \<noteq> []" "list_all isDigit n" "r \<noteq> []" "list_all isDigit r" "g \<noteq> []"
      "list_all isDigit g" "b \<noteq> []" "list_all isDigit b"
    using n rgb by (simp_all add: isNumeral_def)
  show "dropWhile isWhiteSpace nm \<noteq> []"
    using nm(2) by (rule trim_nonempty_dropWhile)
  then show "dropWhile isWhiteSpace (nm @ ys) = dropWhile isWhiteSpace nm @ ys" for ys
    by (rule dropWhile_append_keep)
  show "list_all notComma (dropWhile isWhiteSpace nm)"
    using nm(1) by (rule list_all_dropWhile)
qed (fact h)+

subsection \<open>Lines in the fixed form\<close>

lemma digitChar_isDigit: "d < 10 \<Longrightarrow> isDigit (digitChar d)"
proof -
  assume "d < 10"
  then have "d \<in> {0, 1, 2, 3, 4, 5, 6, 7, 8, 9}" by auto
  then show ?thesis
    unfolding digitChar_def isDigit_def
    by (elim insertE emptyE) simp_all
qed

lemma isNumeral_toString: "isNumeral (toString n)"
proof (induction n rule: toString.induct)
  case (1 n)
  show ?case
  proof (cases "n < 10")
    case True
    then show ?thesis
      by (subst toString.simps) (simp add: isNumeral_def digitChar_isDigit)
  next
    case False
    with 1 have "isNumeral (toString (n div 10))" by simp
    moreover have "isDigit (digitChar (n mod 10))" by (simp add: digitChar_isDigit)
    ultimately show ?thesis using False
      by (subst toString.simps) (simp add: isNumeral_def)
  qed
qed

lemma validHex_obtain:
  assumes "validHex x"
  obtains h where "x = CHR ''#'' # h" "length h = 6" "list_all isHexDigit h"
proof -
  from assms have "x \<noteq> []" "hd x = CHR ''#''" "length (tl x) = 6" "list_all isHexDigit (tl x)"
    by (auto simp: validHex_def)
  then show ?thesis using that[of "tl x"] by (cases x) auto
qed

lemma trim_dropWhile: "trim (dropWhile isWhiteSpace s) = trim s"
  by (simp add: trim_def)

lemma exec_paletteLine:
  assumes "wellFormedColor c"
  shows "\<exists>caps. exec colorRegex (paletteLine i c @ rest) = Some (caps, rest) \<and>
           colorOfMatch caps = trimName c"
proof -
  from assms obtain r g b where rgb: "rgb c = rgbText r g b" "isNumeral r" "isNumeral g" "isNumeral b"
    and nm: "list_all notComma (name c)" "trim (name c) \<noteq> []" and vh: "validHex (hex c)"
    by (auto simp: wellFormedColor_def)
  from vh obtain h where h: "hex c = CHR ''#'' # h" "length h = 6" "list_all isHexDigit h"
    by (rule validHex_obtain)
  let ?caps = "[toString (i + 1), dropWhile isWhiteSpace (name c), CHR ''#'' # h, r, g, b]"
  have "first (matchSeq colorRegex ([], paletteLine i c @ rest)) = Some (?caps, rest)"
    unfolding paletteLine_def h(1) rgb(1)
    using match_line[OF isNumeral_toString nm h(2,3) rgb(2,3,4), of "i + 1" rest]
    by simp
  then have "exec colorRegex (paletteLine i c @ rest) = Some (?caps, rest)"
    by (subst exec_first) simp
  moreover have "colorOfMatch ?caps = trimName c"
    by (simp add: colorOfMatch_def trimName_def h(1) rgb(1) rgbText_def trim_dropWhile)
  ultimately show ?thesis by blast
qed

lemma parseLoop_paletteLine:
  assumes "wellFormedColor c"
  shows "parseLoop (paletteLine i c @ rest) acc = parseLoop rest (acc @ [trimName c])"
proof -
  from exec_paletteLine[OF assms, of i rest] obtain caps
    where "exec colorRegex (paletteLine i c @ rest) = Some (caps, rest)"
      "colorOfMatch caps = trimName c"
    by blast
  then show ?thesis
    by (subst parseLoop.simps) (simp add: colorOfMatch_def)
qed

lemma exec_skip: "\<not> isDigit c \<Longrightarrow> exec colorRegex (c # s) = exec colorRegex s"
  by (subst exec_first) (simp add: colorRegex_def first_Group_Plus)

lemma exec_Nil: "exec colorRegex [] = None"
  by (subst exec_first) (simp add: colorRegex_def first_Group_Plus)

lemma parseLoop_Nil: "parseLoop [] acc = acc"
  by (subst parseLoop.simps) (simp add: exec_Nil)

lemma parseLoop_skip:
  "list_all (\<lambda>c. \<not> isDigit c) d \<Longrightarrow> parseLoop (d @ s) acc = parseLoop s acc"
proof (induction d)
  case Nil
  then show ?case by simp
next
  case (Cons c d)
  then have "parseLoop ((c # d) @ s) acc = parseLoop (d @ s) acc"
    by (subst parseLoop.simps, subst (2) parseLoop.simps) (simp add: exec_skip)
  with Cons show ?case by simp
qed

lemma parseLoop_lines:
  assumes "list_all wellFormedColor cs"
  shows "parseLoop (join ''\<newline>'' (map (\<lambda>(index, color). paletteLine index color) (enumerate k cs))) acc
         = acc @ map trimName cs"
  using assms
proof (induction cs arbitrary: k acc)
  case Nil
  then show ?case by (simp add: parseLoop_Nil)
next
  case (Cons c cs)
  then have c: "wellFormedColor c" and cs: "list_all wellFormedColor cs" by simp_all
  show ?case
  proof (cases cs)
    case Nil
    then show ?thesis
      using parseLoop_paletteLine[OF c, of k "[]" acc] by (simp add: parseLoop_Nil)
  next
    case (Cons c2 cs2)
    let ?rest = "join ''\<newline>'' (map (\<lambda>(index, color). paletteLine index color) (enumerate (Suc k) cs))"
    have "join ''\<newline>'' (map (\<lambda>(index, color). paletteLine index color) (enumerate k (c # cs)))
          = paletteLine k c @ ''\<newline>'' @ ?rest"
      by (simp add: Cons)
    moreover have "parseLoop (''\<newline>'' @ ?rest) (acc @ [trimName c]) = parseLoop ?rest (acc @ [trimName c])"
      by (rule parseLoop_skip) (simp add: isDigit_def)
    ultimately show ?thesis
      using parseLoop_paletteLine[OF c, of k "''\<newline>'' @ ?rest" acc] Cons.IH[OF cs, of "Suc k" "acc @ [trimName c]"]
      by simp
  qed
qed

section \<open>What \<^verbatim>\<open>parseColorInfo\<close> returns\<close>

text \<open>
  C5. For every text, the hex field of every colour that \<^verbatim>\<open>parseColorInfo\<close> returns is
  \<^verbatim>\<open>#\<close> followed by exactly six hexadecimal digits.
\<close>

theorem parseColorInfo_hex_valid: "c \<in> set (parseColorInfo text) \<Longrightarrow> validHex (hex c)"
proof -
  assume "c \<in> set (parseColorInfo text)"
  from parseColorInfo_members[OF this] obtain h m2 m4 m5 m6
    where "c = \<lparr>hex = CHR ''#'' # h, rgb = rgbText m4 m5 m6, name = trim m2\<rparr>"
      "length h = 6" "list_all isHexDigit h"
    by blast
  then show ?thesis by (simp add: validHex_def)
qed

text \<open>
  The theorem at a line with a hex field in mixed case.
\<close>

theorem parseColorInfo_hex_valid_witness:
  "\<lparr>hex = ''#1a2B3c'', rgb = ''(26, 43, 60)'', name = ''Deep Blue''\<rparr>
     \<in> set (parseColorInfo ''1. Name: Deep Blue, Hex: #1a2B3c, RGB: (26, 43, 60)'')
   \<and> validHex ''#1a2B3c''"
proof -
  have m: "\<lparr>hex = ''#1a2B3c'', rgb = ''(26, 43, 60)'', name = ''Deep Blue''\<rparr>
     \<in> set (parseColorInfo ''1. Name: Deep Blue, Hex: #1a2B3c, RGB: (26, 43, 60)'')"
    by code_simp
  from parseColorInfo_hex_valid[OF m] m show ?thesis by simp
qed

text \<open>
  C6 as stated does not hold: the pattern takes any run of digits for a component, and
  nothing compares it with 255. A line whose red component is 999 gives a colour whose rgb
  field carries 999.
\<close>

theorem parseColorInfo_rgb_not_a_byte:
  "parseColorInfo ''1. Name: Red, Hex: #FF0000, RGB: (999, 0, 0)'' =
     [\<lparr>hex = ''#FF0000'', rgb = ''(999, 0, 0)'', name = ''Red''\<rparr>]
   \<and> 255 < decimalValue ''999''"
  by code_simp

text \<open>
  C6, amended. For every text, the rgb field of every colour that \<^verbatim>\<open>parseColorInfo\<close>
  returns is \<^verbatim>\<open>(r, g, b)\<close> with \<open>r\<close>, \<open>g\<close>, \<open>b\<close> non-empty strings of decimal
  digits; their values are not bounded.
\<close>

theorem parseColorInfo_rgb_numerals:
  "c \<in> set (parseColorInfo text) \<Longrightarrow>
     \<exists>r g b. rgb c = rgbText r g b \<and> isNumeral r \<and> isNumeral g \<and> isNumeral b"
proof -
  assume "c \<in> set (parseColorInfo text)"
  from parseColorInfo_members[OF this] obtain h m2 m4 m5 m6
    where "c = \<lparr>hex = CHR ''#'' # h, rgb = rgbText m4 m5 m6, name = trim m2\<rparr>"
      "isNumeral m4" "isNumeral m5" "isNumeral m6"
    by blast
  then have "rgb c = rgbText m4 m5 m6 \<and> isNumeral m4 \<and> isNumeral m5 \<and> isNumeral m6"
    by simp
  then show ?thesis by blast
qed

text \<open>
  The theorem at the line with the component 999.
\<close>

theorem parseColorInfo_rgb_numerals_witness:
  "\<lparr>hex = ''#FF0000'', rgb = ''(999, 0, 0)'', name = ''Red''\<rparr>
     \<in> set (parseColorInfo ''1. Name: Red, Hex: #FF0000, RGB: (999, 0, 0)'')
   \<and> (\<exists>r g b. ''(999, 0, 0)'' = rgbText r g b \<and> isNumeral r \<and> isNumeral g \<and> isNumeral b)"
proof -
  have m: "\<lparr>hex = ''#FF0000'', rgb = ''(999, 0, 0)'', name = ''Red''\<rparr>
     \<in> set (parseColorInfo ''1. Name: Red, Hex: #FF0000, RGB: (999, 0, 0)'')"
    by code_simp
  from parseColorInfo_rgb_numerals[OF m] m show ?thesis by simp
qed

lemma wellFormedColorI:
  assumes "list_all notComma nm" "trim nm \<noteq> []" "length h = 6" "list_all isHexDigit h"
    "isNumeral r" "isNumeral g" "isNumeral b"
  shows "wellFormedColor \<lparr>hex = CHR ''#'' # h, rgb = rgbText r g b, name = nm\<rparr>"
  unfolding wellFormedColor_def using assms by (auto simp: validHex_def)

lemma wellFormed_examples:
  "wellFormedColor \<lparr>hex = ''#7C0A02'', rgb = ''(124, 10, 2)'', name = ''Barn Red''\<rparr>"
  "wellFormedColor \<lparr>hex = ''#87CEEB'', rgb = ''(135, 206, 235)'', name = ''Sky Blue''\<rparr>"
  "wellFormedColor \<lparr>hex = ''#228b22'', rgb = ''(34, 139, 34)'', name = ''Forest Green''\<rparr>"
  "wellFormedColor \<lparr>hex = ''#FF0000'', rgb = ''(255, 0, 0)'', name = '' Red''\<rparr>"
  using wellFormedColorI[of "''Barn Red''" "''7C0A02''" "''124''" "''10''" "''2''"]
    wellFormedColorI[of "''Sky Blue''" "''87CEEB''" "''135''" "''206''" "''235''"]
    wellFormedColorI[of "''Forest Green''" "''228b22''" "''34''" "''139''" "''34''"]
    wellFormedColorI[of "'' Red''" "''FF0000''" "''255''" "''0''" "''0''"]
  by (simp_all add: rgbText_def notComma_def trim_def isWhiteSpace_def isHexDigit_def isNumeral_def
      isDigit_def)

text \<open>
  C4 as stated does not hold: \<^verbatim>\<open>parseColorInfo\<close> trims the name, so a name with a
  leading space, which has no comma and is not blank, does not come back as it was.
\<close>

theorem parseColorInfo_paletteLines_untrimmed:
  "list_all notComma '' Red'' \<and> trim '' Red'' = ''Red''
   \<and> parseColorInfo (paletteLines [\<lparr>hex = ''#FF0000'', rgb = ''(255, 0, 0)'', name = '' Red''\<rparr>])
       = [\<lparr>hex = ''#FF0000'', rgb = ''(255, 0, 0)'', name = ''Red''\<rparr>]"
  by code_simp

text \<open>
  C4, amended. For every list of colours whose names have no comma and are not blank after
  trimming, whose hex fields are \<^verbatim>\<open>#\<close> and six hexadecimal digits and whose rgb fields
  are \<^verbatim>\<open>(r, g, b)\<close> with three numerals, writing the colours as lines
  \<^verbatim>\<open>N. Name: name, Hex: hex, RGB: rgb\<close> and applying \<^verbatim>\<open>parseColorInfo\<close> gives the
  list back in the same order with every name trimmed, hex and rgb as written; it gives
  exactly the list when no name has white space at either end.
\<close>

theorem parseColorInfo_paletteLines:
  assumes "list_all wellFormedColor colors"
  shows "parseColorInfo (paletteLines colors) = map trimName colors
       \<and> (list_all (\<lambda>c. trim (name c) = name c) colors \<longrightarrow>
            parseColorInfo (paletteLines colors) = colors)"
proof -
  have a: "parseColorInfo (paletteLines colors) = map trimName colors"
    using parseLoop_lines[OF assms, of 0 "[]"]
    by (simp add: parseColorInfo_def paletteLines_def)
  have "map trimName colors = colors" if "list_all (\<lambda>c. trim (name c) = name c) colors"
    using that by (induction colors) (simp_all add: trimName_def)
  with a show ?thesis by simp
qed

text \<open>
  The theorem at two colours, one of them with a leading space in its name, and at one colour.
\<close>

theorem parseColorInfo_paletteLines_witness:
  "parseColorInfo (paletteLines
       [\<lparr>hex = ''#7C0A02'', rgb = ''(124, 10, 2)'', name = ''Barn Red''\<rparr>,
        \<lparr>hex = ''#FF0000'', rgb = ''(255, 0, 0)'', name = '' Red''\<rparr>]) =
     [\<lparr>hex = ''#7C0A02'', rgb = ''(124, 10, 2)'', name = ''Barn Red''\<rparr>,
      \<lparr>hex = ''#FF0000'', rgb = ''(255, 0, 0)'', name = ''Red''\<rparr>]
   \<and> parseColorInfo (paletteLines
       [\<lparr>hex = ''#7C0A02'', rgb = ''(124, 10, 2)'', name = ''Barn Red''\<rparr>]) =
     [\<lparr>hex = ''#7C0A02'', rgb = ''(124, 10, 2)'', name = ''Barn Red''\<rparr>]"
proof -
  have w2: "list_all wellFormedColor
       [\<lparr>hex = ''#7C0A02'', rgb = ''(124, 10, 2)'', name = ''Barn Red''\<rparr>,
        \<lparr>hex = ''#FF0000'', rgb = ''(255, 0, 0)'', name = '' Red''\<rparr>]"
    and w1: "list_all wellFormedColor
       [\<lparr>hex = ''#7C0A02'', rgb = ''(124, 10, 2)'', name = ''Barn Red''\<rparr>]"
    by (simp_all add: wellFormed_examples)
  have t: "trim ''Barn Red'' = ''Barn Red''" "trim '' Red'' = ''Red''"
    by code_simp+
  from parseColorInfo_paletteLines[OF w2] parseColorInfo_paletteLines[OF w1] t
  show ?thesis by (simp add: trimName_def)
qed

section \<open>What the endpoint answers\<close>

lemma relay_chunks:
  "relay writer (map ChunkText chunks) =
     writer\<lparr>written := written writer @ map sseLine chunks, status := Closed\<rparr>"
  by (induction chunks arbitrary: writer) simp_all

lemma POST_EventStream_cases:
  assumes "POST key JSON_parse model req = EventStream (Some call) writer"
  shows "writer = relay \<lparr>written = [], status = Open\<rparr> (model call)"
  using assms
  by (auto simp: POST_def streamTask_def Let_def split: if_splits sum.splits prod.splits JsValue.splits)

text \<open>
  C2. When the endpoint answers with the event stream and the stream of the model delivers
  a sequence of text chunks and ends, the endpoint has written, in the order of the chunks,
  exactly one string for each chunk: \<^verbatim>\<open>data: \<close>, the JSON text of \<^verbatim>\<open>{text: chunk}\<close>
  and two line feeds; and it has closed the stream.
\<close>

theorem POST_relays_every_chunk:
  assumes "POST key JSON_parse model req = EventStream (Some call) writer"
    and "model call = map ChunkText chunks"
  shows "written writer = map (\<lambda>text. ''data: '' @ JSON_stringify_text text @ ''\<newline>\<newline>'') chunks
         \<and> status writer = Closed"
proof -
  have "writer = relay \<lparr>written = [], status = Open\<rparr> (map ChunkText chunks)"
    using POST_EventStream_cases[OF assms(1)] assms(2) by simp
  then show ?thesis
    by (simp add: relay_chunks sseLine_def)
qed

text \<open>
  The theorem at a request with an image in the mode \<^verbatim>\<open>full\<close> and a model that answers
  with two chunks; the line feed of the second chunk is escaped in the JSON text.
\<close>

theorem POST_relays_every_chunk_witness:
  "POST (Some ''key'') (\<lambda>s. Inl ''unused'') (\<lambda>call. [ChunkText ''A red'', ChunkText '' barn.\<newline>''])
     \<lparr>contentTypeHeader = Some ''multipart/form-data; boundary=x'',
      formData = Inr [(''image'', FileValue barnPhoto), (''mode'', StringValue ''full'')],
      json = Inl ''unused''\<rparr> =
   EventStream (Some (GenerateWithImage fullPrompt barnPhoto))
     \<lparr>written = [''data: {\"text\":\"A red\"}\<newline>\<newline>'',
                 ''data: {\"text\":\" barn.'' @ [CHR 0x5C] @ ''n\"}\<newline>\<newline>''],
      status = Closed\<rparr>"
proof -
  let ?model = "\<lambda>call :: ModelCall. [ChunkText ''A red'', ChunkText '' barn.\<newline>'']"
  let ?req = "\<lparr>contentTypeHeader = Some ''multipart/form-data; boundary=x'',
      formData = Inr [(''image'', FileValue barnPhoto), (''mode'', StringValue ''full'')],
      json = Inl ''unused''\<rparr>"
  have i: "includes_str ''multipart/form-data; boundary=x'' ''multipart/form-data''"
    by code_simp
  have r: "readRequest ?req = Inr (FileObj barnPhoto, Str ''full'', Null, Null)"
    by (simp add: readRequest_def i formGet_def)
  have p: "POST (Some ''key'') (\<lambda>s. Inl ''unused'') ?model ?req =
        EventStream (Some (GenerateWithImage fullPrompt barnPhoto))
          (relay \<lparr>written = [], status = Open\<rparr> (?model (GenerateWithImage fullPrompt barnPhoto)))"
    by (simp add: POST_def r truthy_def basePrompt_def streamTask_def)
  have m: "?model (GenerateWithImage fullPrompt barnPhoto) = map ChunkText [''A red'', '' barn.\<newline>'']"
    by simp
  have j: "JSON_stringify_text ''A red'' = ''{\"text\":\"A red\"}''"
    "JSON_stringify_text '' barn.\<newline>'' = ''{\"text\":\" barn.'' @ [CHR 0x5C] @ ''n\"}''"
    by code_simp+
  from POST_relays_every_chunk[OF p m] j
  have "relay \<lparr>written = [], status = Open\<rparr> (?model (GenerateWithImage fullPrompt barnPhoto)) =
      \<lparr>written = [''data: {\"text\":\"A red\"}\<newline>\<newline>'',
                 ''data: {\"text\":\" barn.'' @ [CHR 0x5C] @ ''n\"}\<newline>\<newline>''],
      status = Closed\<rparr>"
    by (intro Writer.equality) simp_all
  with p show ?thesis by simp
qed

text \<open>
  C8 as stated does not hold for every request: a request with a JSON body \<^verbatim>\<open>null\<close> has
  no image file and no mode \<^verbatim>\<open>text-only\<close>, and the handler answers it with status 500
  from its \<^verbatim>\<open>catch\<close>, not with status 400.
\<close>

theorem POST_json_null_is_500:
  "POST (Some ''key'') (\<lambda>s. Inl ''unused'') (\<lambda>call. [])
     \<lparr>contentTypeHeader = Some ''application/json'', formData = Inl ''unused'', json = Inr JsonNull\<rparr>
   = JsonResponse 500 (ErrorOf NullProperty)"
proof -
  have i: "\<not> includes_str ''application/json'' ''multipart/form-data''"
    "includes_str ''application/json'' ''application/json''"
    by code_simp+
  show ?thesis by (simp add: POST_def readRequest_def i)
qed

lemma readRequest_form:
  assumes "includes_str (contentTypeOf req) ''multipart/form-data''" "formData req = Inr fd"
  shows "readRequest req =
           Inr (formGet fd ''image'', formGet fd ''mode'', formGet fd ''question'',
                formGet fd ''currentPalette'')"
  using assms by (simp add: readRequest_def contentTypeOf_def)

lemma readRequest_json:
  assumes "\<not> includes_str (contentTypeOf req) ''multipart/form-data''"
    "includes_str (contentTypeOf req) ''application/json''"
  shows "readRequest req =
           (case json req of
              Inl msg \<Rightarrow> Inl (BodyError msg)
            | Inr JsonNull \<Rightarrow> Inl NullProperty
            | Inr (JsonValue question mode) \<Rightarrow> Inr (Null, mode, question, Str ''''))"
  using assms by (simp add: readRequest_def contentTypeOf_def)

lemma readRequest_other:
  assumes "\<not> includes_str (contentTypeOf req) ''multipart/form-data''"
    "\<not> includes_str (contentTypeOf req) ''application/json''"
  shows "readRequest req = Inr (Null, Str ''full'', Str '''', Str '''')"
  using assms by (simp add: readRequest_def contentTypeOf_def)

lemma formGet_no_image:
  assumes "map_of fd ''image'' = None \<or> map_of fd ''image'' = Some (StringValue '''')"
  shows "\<not> truthy (formGet fd ''image'')"
  using assms by (auto simp: formGet_def truthy_def)

lemma formGet_mode:
  assumes "map_of fd ''mode'' \<noteq> Some (StringValue ''text-only'')"
  shows "formGet fd ''mode'' \<noteq> Str ''text-only''"
  using assms by (auto simp: formGet_def split: option.splits FormValue.splits)

lemma POST_key_set:
  assumes "key \<noteq> None" "key \<noteq> Some ''''"
  shows "POST key JSON_parse model req =
     (case readRequest req of
          Inl e \<Rightarrow> JsonResponse 500 (ErrorOf e)
        | Inr (imageFile, mode, question, currentPalette) \<Rightarrow>
            if \<not> truthy imageFile \<and> mode \<noteq> Str ''text-only'' then
              JsonResponse 400 (ErrorMessage ''No image file provided'')
            else
              (case basePrompt JSON_parse mode question currentPalette of
                 Inl e \<Rightarrow> JsonResponse 500 (ErrorOf e)
               | Inr prompt \<Rightarrow> streamTask model mode prompt imageFile))"
  using assms by (cases key) (simp_all add: POST_def)

text \<open>
  C8, amended. The endpoint answers with a JSON error and starts no stream, whatever the
  model would do:
  \<^item> status 500 with the error
    \<^verbatim>\<open>Server configuration error: GOOGLE_API_KEY is not configured\<close> when the key is not
    set;
  \<^item> status 400 with the error \<^verbatim>\<open>No image file provided\<close> when the key is set, the
    request was read without an exception, it carries no entry \<^verbatim>\<open>image\<close> (a form
    without that entry or with an empty one, a JSON body, or a body of another content
    type) and its mode is not \<^verbatim>\<open>text-only\<close>;
  \<^item> status 500 with the error of the exception when the key is set and reading the
    request throws: the form or the JSON body cannot be read, or the JSON body is
    \<^verbatim>\<open>null\<close>.
  The statement is about the request as it arrives: its header, its form entries and its
  JSON body. It says nothing about a form whose entry \<^verbatim>\<open>image\<close> is a non-empty text.
\<close>

theorem POST_error_responses:
  "(key = None \<or> key = Some '''' \<longrightarrow>
      POST key JSON_parse model req =
        JsonResponse 500
          (ErrorMessage ''Server configuration error: GOOGLE_API_KEY is not configured''))
   \<and> (key \<noteq> None \<and> key \<noteq> Some '''' \<longrightarrow>
       (includes_str (contentTypeOf req) ''multipart/form-data'' \<and> formData req = Inr fd
          \<and> (map_of fd ''image'' = None \<or> map_of fd ''image'' = Some (StringValue ''''))
          \<and> map_of fd ''mode'' \<noteq> Some (StringValue ''text-only'') \<longrightarrow>
        POST key JSON_parse model req = JsonResponse 400 (ErrorMessage ''No image file provided''))
     \<and> (\<not> includes_str (contentTypeOf req) ''multipart/form-data''
          \<and> includes_str (contentTypeOf req) ''application/json''
          \<and> json req = Inr (JsonValue question mode) \<and> mode \<noteq> Str ''text-only'' \<longrightarrow>
        POST key JSON_parse model req = JsonResponse 400 (ErrorMessage ''No image file provided''))
     \<and> (\<not> includes_str (contentTypeOf req) ''multipart/form-data''
          \<and> \<not> includes_str (contentTypeOf req) ''application/json'' \<longrightarrow>
        POST key JSON_parse model req = JsonResponse 400 (ErrorMessage ''No image file provided''))
     \<and> (includes_str (contentTypeOf req) ''multipart/form-data'' \<and> formData req = Inl msg \<longrightarrow>
        POST key JSON_parse model req = JsonResponse 500 (ErrorOf (BodyError msg)))
     \<and> (\<not> includes_str (contentTypeOf req) ''multipart/form-data''
          \<and> includes_str (contentTypeOf req) ''application/json'' \<and> json req = Inl msg \<longrightarrow>
        POST key JSON_parse model req = JsonResponse 500 (ErrorOf (BodyError msg)))
     \<and> (\<not> includes_str (contentTypeOf req) ''multipart/form-data''
          \<and> includes_str (contentTypeOf req) ''application/json'' \<and> json req = Inr JsonNull \<longrightarrow>
        POST key JSON_parse model req = JsonResponse 500 (ErrorOf NullProperty)))"
proof (intro conjI impI)
  assume "key = None \<or> key = Some ''''"
  then show "POST key JSON_parse model req =
        JsonResponse 500
          (ErrorMessage ''Server configuration error: GOOGLE_API_KEY is not configured'')"
    by (auto simp: POST_def)
next
  assume k: "key \<noteq> None \<and> key \<noteq> Some ''''"
    and a: "includes_str (contentTypeOf req) ''multipart/form-data'' \<and> formData req = Inr fd
          \<and> (map_of fd ''image'' = None \<or> map_of fd ''image'' = Some (StringValue ''''))
          \<and> map_of fd ''mode'' \<noteq> Some (StringValue ''text-only'')"
  from a have "readRequest req =
           Inr (formGet fd ''image'', formGet fd ''mode'', formGet fd ''question'',
                formGet fd ''currentPalette'')"
    by (intro readRequest_form) simp_all
  moreover from a have "\<not> truthy (formGet fd ''image'')" "formGet fd ''mode'' \<noteq> Str ''text-only''"
    by (simp_all add: formGet_no_image formGet_mode)
  ultimately show "POST key JSON_parse model req =
      JsonResponse 400 (ErrorMessage ''No image file provided'')"
    using k by (simp add: POST_key_set)
next
  assume k: "key \<noteq> None \<and> key \<noteq> Some ''''"
    and a: "\<not> includes_str (contentTypeOf req) ''multipart/form-data''
          \<and> includes_str (contentTypeOf req) ''application/json''
          \<and> json req = Inr (JsonValue question mode) \<and> mode \<noteq> Str ''text-only''"
  then have "readRequest req = Inr (Null, mode, question, Str '''')"
    by (simp add: readRequest_json)
  then show "POST key JSON_parse model req =
      JsonResponse 400 (ErrorMessage ''No image file provided'')"
    using k a by (simp add: POST_key_set truthy_def)
next
  assume k: "key \<noteq> None \<and> key \<noteq> Some ''''"
    and a: "\<not> includes_str (contentTypeOf req) ''multipart/form-data''
          \<and> \<not> includes_str (contentTypeOf req) ''application/json''"
  then have "readRequest req = Inr (Null, Str ''full'', Str '''', Str '''')"
    by (simp add: readRequest_other)
  then show "POST key JSON_parse model req =
      JsonResponse 400 (ErrorMessage ''No image file provided'')"
    using k by (simp add: POST_key_set truthy_def)
next
  assume k: "key \<noteq> None \<and> key \<noteq> Some ''''"
    and a: "includes_str (contentTypeOf req) ''multipart/form-data'' \<and> formData req = Inl msg"
  then have "readRequest req = Inl (BodyError msg)"
    by (simp add: readRequest_def contentTypeOf_def)
  then show "POST key JSON_parse model req = JsonResponse 500 (ErrorOf (BodyError msg))"
    using k by (simp add: POST_key_set)
next
  assume k: "key \<noteq> None \<and> key \<noteq> Some ''''"
    and a: "\<not> includes_str (contentTypeOf req) ''multipart/form-data''
          \<and> includes_str (contentTypeOf req) ''application/json'' \<and> json req = Inl msg"
  then have "readRequest req = Inl (BodyError msg)"
    by (simp add: readRequest_json)
  then show "POST key JSON_parse model req = JsonResponse 500 (ErrorOf (BodyError msg))"
    using k by (simp add: POST_key_set)
next
  assume k: "key \<noteq> None \<and> key \<noteq> Some ''''"
    and a: "\<not> includes_str (contentTypeOf req) ''multipart/form-data''
          \<and> includes_str (contentTypeOf req) ''application/json'' \<and> json req = Inr JsonNull"
  then have "readRequest req = Inl NullProperty"
    by (simp add: readRequest_json)
  then show "POST key JSON_parse model req = JsonResponse 500 (ErrorOf NullProperty)"
    using k by (simp add: POST_key_set)
qed

text \<open>
  The theorem at a follow-up form without an image, with the key missing and with the key
  set, at a JSON request in the mode \<^verbatim>\<open>full\<close>, at a request without a content type and
  at a JSON request whose body cannot be read.
\<close>

theorem POST_error_responses_witness:
  "POST None (\<lambda>s. Inl ''unused'') (\<lambda>call. [ChunkText ''never sent''])
     \<lparr>contentTypeHeader = Some ''multipart/form-data; boundary=x'',
      formData = Inr [(''mode'', StringValue ''followup''), (''question'', StringValue ''Why red?'')],
      json = Inl ''unused''\<rparr>
   = JsonResponse 500 (ErrorMessage ''Server configuration error: GOOGLE_API_KEY is not configured'')
   \<and> POST (Some ''key'') (\<lambda>s. Inl ''unused'') (\<lambda>call. [ChunkText ''never sent''])
     \<lparr>contentTypeHeader = Some ''multipart/form-data; boundary=x'',
      formData = Inr [(''mode'', StringValue ''followup''), (''question'', StringValue ''Why red?'')],
      json = Inl ''unused''\<rparr>
   = JsonResponse 400 (ErrorMessage ''No image file provided'')
   \<and> POST (Some ''key'') (\<lambda>s. Inl ''unused'') (\<lambda>call. [ChunkText ''never sent''])
     \<lparr>contentTypeHeader = Some ''application/json'', formData = Inl ''unused'',
      json = Inr (JsonValue (Str ''Why red?'') (Str ''full''))\<rparr>
   = JsonResponse 400 (ErrorMessage ''No image file provided'')
   \<and> POST (Some ''key'') (\<lambda>s. Inl ''unused'') (\<lambda>call. [ChunkText ''never sent''])
     \<lparr>contentTypeHeader = None, formData = Inl ''unused'', json = Inl ''unused''\<rparr>
   = JsonResponse 400 (ErrorMessage ''No image file provided'')
   \<and> POST (Some ''key'') (\<lambda>s. Inl ''unused'') (\<lambda>call. [ChunkText ''never sent''])
     \<lparr>contentTypeHeader = Some ''application/json'', formData = Inl ''unused'',
      json = Inl ''Unexpected end of JSON input''\<rparr>
   = JsonResponse 500 (ErrorOf (BodyError ''Unexpected end of JSON input''))"
proof -
  let ?parse = "\<lambda>s :: string. Inl ''unused'' :: string + ColorInfo list"
  let ?model = "\<lambda>call :: ModelCall. [ChunkText ''never sent'']"
  let ?fd = "[(''mode'', StringValue ''followup''), (''question'', StringValue ''Why red?'')]"
  let ?form = "\<lparr>contentTypeHeader = Some ''multipart/form-data; boundary=x'',
      formData = Inr ?fd, json = Inl ''unused''\<rparr>"
  let ?json = "\<lparr>contentTypeHeader = Some ''application/json'', formData = Inl ''unused'',
      json = Inr (JsonValue (Str ''Why red?'') (Str ''full''))\<rparr>"
  let ?none = "\<lparr>contentTypeHeader = None, formData = Inl ''unused'', json = Inl ''unused''\<rparr> :: Request"
  let ?bad = "\<lparr>contentTypeHeader = Some ''application/json'', formData = Inl ''unused'',
      json = Inl ''Unexpected end of JSON input''\<rparr> :: Request"
  have i: "includes_str ''multipart/form-data; boundary=x'' ''multipart/form-data''"
    "\<not> includes_str ''application/json'' ''multipart/form-data''"
    "includes_str ''application/json'' ''application/json''"
    "\<not> includes_str '''' ''multipart/form-data''"
    "\<not> includes_str '''' ''application/json''"
    by code_simp+
  have k: "Some ''key'' \<noteq> None \<and> Some ''key'' \<noteq> Some ''''"
    by simp
  have f: "map_of ?fd ''image'' = None \<or> map_of ?fd ''image'' = Some (StringValue '''')"
    "map_of ?fd ''mode'' \<noteq> Some (StringValue ''text-only'')"
    by simp_all
  from POST_error_responses[where key = None and JSON_parse = ?parse and model = ?model and req = ?form]
    POST_error_responses[where key = "Some ''key''" and JSON_parse = ?parse and model = ?model
        and req = ?form and fd = ?fd]
    POST_error_responses[where key = "Some ''key''" and JSON_parse = ?parse and model = ?model
        and req = ?json and question = "Str ''Why red?''" and mode = "Str ''full''"]
    POST_error_responses[where key = "Some ''key''" and JSON_parse = ?parse and model = ?model
        and req = ?none]
    POST_error_responses[where key = "Some ''key''" and JSON_parse = ?parse and model = ?model
        and req = ?bad and msg = "''Unexpected end of JSON input''"]
    i k f
  show ?thesis by (simp add: contentTypeOf_def)
qed

text \<open>
  The case that the theorem leaves out. The check \<^verbatim>\<open>!imageFile\<close> of the handler is
  meant to refuse a request without a file, but \<^verbatim>\<open>formData.get('image') as File\<close> is a
  non-empty string when the entry is a text field: the check lets it pass, the response is
  the event stream, and the task aborts the stream at \<^verbatim>\<open>imageFile.arrayBuffer()\<close>
  before any call to the model.
\<close>

lemma POST_text_image:
  "POST (Some ''key'') (\<lambda>s. Inl ''unused'') (\<lambda>call. [ChunkText ''never sent''])
     \<lparr>contentTypeHeader = Some ''multipart/form-data; boundary=x'',
      formData = Inr [(''image'', StringValue ''abc''), (''mode'', StringValue ''full'')],
      json = Inl ''unused''\<rparr>
   = EventStream None \<lparr>written = [], status = Aborted\<rparr>"
proof -
  have i: "includes_str ''multipart/form-data; boundary=x'' ''multipart/form-data''"
    by code_simp
  show ?thesis
    by (simp add: POST_def readRequest_def i formGet_def truthy_def basePrompt_def streamTask_def)
qed

section \<open>What a follow-up submission sends\<close>






section \<open>What the client shows while the stream arrives\<close>

lemma upsertMessage_new:
  assumes "\<forall>m \<in> set prev. id_msg m \<noteq> mid"
  shows "upsertMessage mid text prev =
           prev @ [\<lparr>id_msg = mid, role = Assistant, content = text, imagePreview = None\<rparr>]"
proof -
  from assms have "find (\<lambda>msg. id_msg msg = mid) prev = None"
    by (simp add: find_None_iff)
  then show ?thesis by (simp add: upsertMessage_def)
qed

lemma upsertMessage_last:
  assumes "\<forall>m \<in> set prev. id_msg m \<noteq> mid"
  shows "upsertMessage mid text
           (prev @ [\<lparr>id_msg = mid, role = Assistant, content = old, imagePreview = None\<rparr>]) =
         prev @ [\<lparr>id_msg = mid, role = Assistant, content = text, imagePreview = None\<rparr>]"
proof -
  let ?ms = "prev @ [\<lparr>id_msg = mid, role = Assistant, content = old, imagePreview = None\<rparr>]"
  have "find (\<lambda>msg. id_msg msg = mid) ?ms \<noteq> None"
    unfolding find_None_iff by auto
  then obtain m where "find (\<lambda>msg. id_msg msg = mid) ?ms = Some m" by blast
  moreover from assms
  have "map (\<lambda>msg. if id_msg msg = mid then msg\<lparr>content := text\<rparr> else msg) prev = prev"
    by (simp add: map_idI)
  ultimately show ?thesis by (simp add: upsertMessage_def)
qed

lemma processLine_step:
  assumes prev: "\<forall>m \<in> set prev. id_msg m \<noteq> mid"
    and mid: "mid = messageId @ (if newImage then ''-analysis'' else ''-response'')"
    and acc: "accumulatedText st = concat ts"
    and msgs: "messages st = prev @ (if ts = [] then [] else [streamedMessage mid (concat ts)])"
  shows "accumulatedText (processLine parse newImage messageId st line) =
           concat (ts @ textFields parse [line])
         \<and> messages (processLine parse newImage messageId st line) =
           prev @ (if ts @ textFields parse [line] = [] then []
                   else [streamedMessage mid (concat (ts @ textFields parse [line]))])"
proof (cases "parse (drop 6 line)")
  case (TextField t)
  show ?thesis
  proof (cases "ts = []")
    case True
    with TextField acc msgs mid upsertMessage_new[OF prev] show ?thesis
      by (simp add: processLine_def textFields_def streamedMessage_def Let_def)
  next
    case False
    with TextField acc msgs mid upsertMessage_last[OF prev] show ?thesis
      by (simp add: processLine_def textFields_def streamedMessage_def Let_def)
  qed
qed (use acc msgs in \<open>simp_all add: processLine_def textFields_def\<close>)

lemma textFields_append: "textFields parse (xs @ ys) = textFields parse xs @ textFields parse ys"
  by (simp add: textFields_def)

lemma foldl_processLine:
  assumes prev: "\<forall>m \<in> set prev. id_msg m \<noteq> mid"
    and mid: "mid = messageId @ (if newImage then ''-analysis'' else ''-response'')"
  shows "accumulatedText st = concat ts \<Longrightarrow>
         messages st = prev @ (if ts = [] then [] else [streamedMessage mid (concat ts)]) \<Longrightarrow>
         accumulatedText (foldl (processLine parse newImage messageId) st lines) =
           concat (ts @ textFields parse lines)
         \<and> messages (foldl (processLine parse newImage messageId) st lines) =
           prev @ (if ts @ textFields parse lines = [] then []
                   else [streamedMessage mid (concat (ts @ textFields parse lines))])"
proof (induction lines arbitrary: st ts)
  case Nil
  then show ?case by (simp add: textFields_def)
next
  case (Cons line lines)
  from processLine_step[OF prev mid Cons.prems, of parse line]
  have "accumulatedText (foldl (processLine parse newImage messageId)
          (processLine parse newImage messageId st line) lines) =
           concat ((ts @ textFields parse [line]) @ textFields parse lines)
         \<and> messages (foldl (processLine parse newImage messageId)
          (processLine parse newImage messageId st line) lines) =
           prev @ (if (ts @ textFields parse [line]) @ textFields parse lines = [] then []
                   else [streamedMessage mid (concat ((ts @ textFields parse [line]) @ textFields parse lines))])"
    by (intro Cons.IH) blast+
  moreover have "textFields parse (line # lines) = textFields parse [line] @ textFields parse lines"
    using textFields_append[of parse "[line]" lines] by simp
  ultimately show ?case by simp
qed

lemma foldl_processChunk:
  assumes prev: "\<forall>m \<in> set prev. id_msg m \<noteq> mid"
    and mid: "mid = messageId @ (if newImage then ''-analysis'' else ''-response'')"
  shows "accumulatedText st = concat ts \<Longrightarrow>
         messages st = prev @ (if ts = [] then [] else [streamedMessage mid (concat ts)]) \<Longrightarrow>
         accumulatedText (consumeChunks parse newImage messageId st chunks) =
           concat (ts @ textFields parse (dataLines chunks))
         \<and> messages (consumeChunks parse newImage messageId st chunks) =
           prev @ (if ts @ textFields parse (dataLines chunks) = [] then []
                   else [streamedMessage mid (concat (ts @ textFields parse (dataLines chunks)))])"
proof (induction chunks arbitrary: st ts)
  case Nil
  then show ?case by (simp add: consumeChunks_def dataLines_def textFields_def)
next
  case (Cons chunk chunks)
  let ?lines = "filter (\<lambda>line. startsWith line ''data: '') (splitLines chunk)"
  let ?st = "processChunk parse newImage messageId st chunk"
  from foldl_processLine[OF prev mid Cons.prems, of parse ?lines]
  have a: "accumulatedText ?st = concat (ts @ textFields parse ?lines)"
    and m: "messages ?st = prev @ (if ts @ textFields parse ?lines = [] then []
                   else [streamedMessage mid (concat (ts @ textFields parse ?lines))])"
    by (simp_all add: processChunk_def)
  have d: "textFields parse (dataLines (chunk # chunks)) =
             textFields parse ?lines @ textFields parse (dataLines chunks)"
    by (simp add: dataLines_def textFields_append)
  from Cons.IH[OF a m] show ?case
    unfolding d by (simp add: consumeChunks_def)
qed

text \<open>
  C3. After every list of chunks that the client has read for a submission with a new image,
  the accumulated text is the concatenation, in the order of arrival, of the text fields of
  the \<^verbatim>\<open>data: \<close> lines that parsed; and, when the messages held none with the id of the
  analysis before, they are the messages from before followed, once a text field has
  arrived, by one assistant message whose content is \<^verbatim>\<open>stripMainColorsSection\<close> of the
  accumulated text.
\<close>

theorem consumeChunks_accumulates:
  assumes "\<forall>m \<in> set prev. id_msg m \<noteq> messageId @ ''-analysis''"
  shows "accumulatedText
           (consumeChunks parse True messageId
              \<lparr>accumulatedText = [], messages = prev, palette = pal\<rparr> chunks) =
         concat (textFields parse (dataLines chunks))
       \<and> messages
           (consumeChunks parse True messageId
              \<lparr>accumulatedText = [], messages = prev, palette = pal\<rparr> chunks) =
         prev @ (if textFields parse (dataLines chunks) = [] then []
                 else [\<lparr>id_msg = messageId @ ''-analysis'', role = Assistant,
                        content = stripMainColorsSection (concat (textFields parse (dataLines chunks))),
                        imagePreview = None\<rparr>])"
proof -
  let ?st = "\<lparr>accumulatedText = [], messages = prev, palette = pal\<rparr>"
  let ?mid = "messageId @ ''-analysis''"
  have mid: "?mid = messageId @ (if True then ''-analysis'' else ''-response'')"
    by simp
  have a: "accumulatedText ?st = concat []"
    by simp
  have m: "messages ?st = prev @ (if [] = [] then [] else [streamedMessage ?mid (concat [])])"
    by simp
  from foldl_processChunk[OF assms mid a m, of parse chunks]
  show ?thesis
    unfolding streamedMessage_def append_Nil .
qed

text \<open>
  The theorem at two chunks with four \<^verbatim>\<open>data: \<close> lines, of which one does not parse and
  one has no text, and with a line that is not data.
\<close>

theorem consumeChunks_accumulates_witness:
  "consumeChunks (\<lambda>s. if s = [] then NoText else if s = ''?'' then Thrown else TextField s) True ''17''
     \<lparr>accumulatedText = [],
      messages = [\<lparr>id_msg = ''17'', role = User, content = ''Selected image: barn.png (2.0 KB)'',
                   imagePreview = Some ''blob:1''\<rparr>],
      palette = []\<rparr>
     [''data: A red\<newline>\<newline>data: ?\<newline>'', ''event: ping\<newline>data:  barn. Main Colors: 1. Na\<newline>data: '']
   = \<lparr>accumulatedText = ''A red barn. Main Colors: 1. Na'',
      messages = [\<lparr>id_msg = ''17'', role = User, content = ''Selected image: barn.png (2.0 KB)'',
                   imagePreview = Some ''blob:1''\<rparr>,
                  \<lparr>id_msg = ''17-analysis'', role = Assistant, content = ''A red barn.'',
                   imagePreview = None\<rparr>],
      palette = []\<rparr>"
proof -
  let ?parse = "\<lambda>s. if s = [] then NoText else if s = ''?'' then Thrown else TextField s"
  let ?prev = "[\<lparr>id_msg = ''17'', role = User, content = ''Selected image: barn.png (2.0 KB)'',
                   imagePreview = Some ''blob:1''\<rparr>]"
  let ?chunks = "[''data: A red\<newline>\<newline>data: ?\<newline>'', ''event: ping\<newline>data:  barn. Main Colors: 1. Na\<newline>data: '']"
  let ?st = "consumeChunks ?parse True ''17'' \<lparr>accumulatedText = [], messages = ?prev, palette = []\<rparr> ?chunks"
  have h: "\<forall>m \<in> set ?prev. id_msg m \<noteq> ''17'' @ ''-analysis''"
    by simp
  have f: "textFields ?parse (dataLines ?chunks) = [''A red'', '' barn. Main Colors: 1. Na'']"
    by code_simp
  have s: "stripMainColorsSection ''A red barn. Main Colors: 1. Na'' = ''A red barn.''"
    by code_simp
  have p: "palette ?st = []"
    by code_simp
  from consumeChunks_accumulates[OF h, of ?parse "[]" ?chunks]
  have "accumulatedText ?st = ''A red barn. Main Colors: 1. Na''"
    and "messages ?st = ?prev @ [\<lparr>id_msg = ''17-analysis'', role = Assistant, content = ''A red barn.'',
                   imagePreview = None\<rparr>]"
    unfolding f by (simp_all add: s)
  with p show ?thesis
    by (intro StreamState.equality) simp_all
qed

section \<open>The palette that the client presents\<close>

subsection \<open>Text around the colour lines\<close>

















subsection \<open>The palette while the stream arrives\<close>










end
